theory Spec2Isabelle
  imports Main "HOL-Library.Sublist"
begin

section \<open>String primitives of the host language\<close>

text \<open>
  The parser of \<^verbatim>\<open>src/lib/parser.ts\<close> works on JavaScript strings. A string is modelled
  as a \<^typ>\<open>string\<close>, one \<^typ>\<open>char\<close> per code unit; code units above 255 are outside the
  model. Each primitive below is the library method the source calls, with the behaviour
  ECMAScript gives it on the arguments the source passes.
\<close>

text \<open>\<^verbatim>\<open>String.prototype.indexOf(pat)\<close>: the first position where \<open>pat\<close> starts, \<open>None\<close> for -1.\<close>

fun indexOf :: "string \<Rightarrow> string \<Rightarrow> nat option" where
  "indexOf [] pat = (if pat = [] then Some 0 else None)"
| "indexOf (c # cs) pat =
     (if prefix pat (c # cs) then Some 0 else map_option Suc (indexOf cs pat))"

text \<open>\<^verbatim>\<open>String.prototype.includes(pat)\<close>.\<close>

definition includes_str :: "string \<Rightarrow> string \<Rightarrow> bool" where
  "includes_str s pat = (indexOf s pat \<noteq> None)"

text \<open>\<^verbatim>\<open>String.prototype.startsWith(pat)\<close>.\<close>

definition startsWith :: "string \<Rightarrow> string \<Rightarrow> bool" where
  "startsWith s pat = prefix pat s"

text \<open>
  White space as \<^verbatim>\<open>trim\<close> sees it, among the code units below 256: tab, line feed,
  vertical tab, form feed, carriage return, space and no-break space.
\<close>

definition isWhiteSpace :: "char \<Rightarrow> bool" where
  "isWhiteSpace c = (of_char c \<in> {9, 10, 11, 12, 13, 32, 160 :: nat})"

text \<open>\<^verbatim>\<open>String.prototype.trim()\<close>.\<close>

definition trim :: "string \<Rightarrow> string" where
  "trim s = rev (dropWhile isWhiteSpace (rev (dropWhile isWhiteSpace s)))"

text \<open>
  \<^verbatim>\<open>String.prototype.split(sep)\<close> for a string separator: the text is cut at every
  occurrence of \<open>sep\<close>, found from left to right without overlap; a text without the
  separator (the empty text too) gives one segment. The source only passes the non-empty
  separators \<^verbatim>\<open>' '\<close> and \<^verbatim>\<open>']('\<close>; with an empty separator this function returns the text
  as one segment.
\<close>

function split_str :: "string \<Rightarrow> string \<Rightarrow> string list" where
  "split_str sep [] = [[]]"
| "split_str sep (c # cs) =
     (if sep \<noteq> [] \<and> prefix sep (c # cs)
      then [] # split_str sep (drop (length sep) (c # cs))
      else (case split_str sep cs of
              [] \<Rightarrow> [[c]]
            | seg # segs \<Rightarrow> (c # seg) # segs))"
  by pat_completeness auto
termination
  by (relation "measure (\<lambda>(sep, s). length s)") (auto simp: neq_Nil_conv)

text \<open>The character class \<^verbatim>\<open>[\r\n]\<close>.\<close>

definition isLineBreak :: "char \<Rightarrow> bool" where
  "isLineBreak c = (c = CHR 0x0D \<or> c = CHR 0x0A)"

text \<open>
  \<^verbatim>\<open>String.prototype.split(/[\r\n]+/)\<close>: the text is cut at every maximal run of carriage
  returns and line feeds. A run at the start or at the end of the text leaves an empty
  segment there, and the empty text gives one empty segment.
\<close>

function splitLines :: "string \<Rightarrow> string list" where
  "splitLines s =
     (let seg = takeWhile (\<lambda>c. \<not> isLineBreak c) s;
          rest = dropWhile (\<lambda>c. \<not> isLineBreak c) s
      in if rest = [] then [seg]
         else seg # splitLines (dropWhile isLineBreak rest))"
  by pat_completeness auto
termination
proof (relation "measure length")
  fix s :: string and seg rest
  assume rest: "rest = dropWhile (\<lambda>c. \<not> isLineBreak c) s" and ne: "rest \<noteq> []"
  from ne obtain c cs where c: "rest = c # cs"
    by (cases rest) auto
  have "dropWhile (\<lambda>c. \<not> isLineBreak c) s = c # cs"
    using rest c by simp
  then have "isLineBreak c"
    unfolding dropWhile_eq_Cons_conv by blast
  then have "length (dropWhile isLineBreak rest) \<le> length cs"
    using c by (simp add: length_dropWhile_le)
  moreover have "length rest \<le> length s"
    using rest by (simp add: length_dropWhile_le)
  ultimately show "(dropWhile isLineBreak rest, s) \<in> measure length"
    using c by simp
qed simp

declare splitLines.simps [simp del]

text \<open>\<^verbatim>\<open>Array.prototype.slice(1)\<close>.\<close>

definition slice1 :: "'a list \<Rightarrow> 'a list" where
  "slice1 xs = drop 1 xs"

text \<open>
  \<^verbatim>\<open>xs.slice(-1)[0]\<close>: the last element. The source applies it to the result of
  \<^verbatim>\<open>split\<close>, which always has an element (lemma \<open>split_str_not_Nil\<close>).
\<close>

definition lastItem :: "string list \<Rightarrow> string" where
  "lastItem xs = last xs"

text \<open>
  \<^verbatim>\<open>s.replace(')', '')\<close> with a string pattern: the first occurrence of the character is
  removed, the others stay.
\<close>

definition replaceFirstParen :: "string \<Rightarrow> string" where
  "replaceFirstParen s = remove1 (CHR 0x29) s"

section \<open>Line helpers of the parser\<close>

text \<open>\<^verbatim>\<open>splitAndGetLastItem = (line) => line.trim().split(' ').slice(-1)[0]\<close>\<close>

definition splitAndGetLastItem :: "string \<Rightarrow> string" where
  "splitAndGetLastItem line = lastItem (split_str '' '' (trim line))"

text \<open>\<^verbatim>\<open>ensureTaskListChild = (line) => line.trim().indexOf('-') === 0\<close>\<close>

definition ensureTaskListChild :: "string \<Rightarrow> bool" where
  "ensureTaskListChild line = (indexOf (trim line) ''-'' = Some 0)"

text \<open>
  \<^verbatim>\<open>getUrlFromMarkdownText = (line) => line.trim().split('](').slice(-1)[0].replace(')', '')\<close>
\<close>

definition getUrlFromMarkdownText :: "string \<Rightarrow> string" where
  "getUrlFromMarkdownText line = replaceFirstParen (lastItem (split_str '']('' (trim line)))"

text \<open>
  \<^verbatim>\<open>getSectionLines(text, sectionHeader)\<close>: nothing when the header does not occur;
  otherwise the text from the first occurrence on, cut into lines, without its first line,
  each line passed through \<open>getUrlFromMarkdownText\<close>.
\<close>

definition getSectionLines :: "string \<Rightarrow> string \<Rightarrow> string list" where
  "getSectionLines text sectionHeader =
     (case indexOf text sectionHeader of
        None \<Rightarrow> []
      | Some sectionIndex \<Rightarrow>
          map getUrlFromMarkdownText (slice1 (splitLines (drop sectionIndex text))))"

text \<open>\<^verbatim>\<open>Array.prototype.join(sep)\<close> on an array of strings.\<close>

fun join :: "string \<Rightarrow> string list \<Rightarrow> string" where
  "join sep [] = []"
| "join sep [x] = x"
| "join sep (x # y # ys) = x @ sep @ join sep (y # ys)"

text \<open>\<^verbatim>\<open>Boolean\<close> as the predicate of \<^verbatim>\<open>filter(Boolean)\<close> on strings: the empty string is falsy.\<close>

definition Boolean_str :: "string \<Rightarrow> bool" where
  "Boolean_str s = (s \<noteq> [])"

section \<open>Data of the parser\<close>

text \<open>A thrown \<^verbatim>\<open>Error\<close>, with its message.\<close>

datatype error = Error string

text \<open>
  The fields of \<^verbatim>\<open>GithubIssueData\<close> the parser reads. \<open>html_url\<close> and \<open>root_issue\<close> are
  options because the source tests them against \<^verbatim>\<open>null\<close> and \<^verbatim>\<open>true\<close>: \<open>None\<close> stands for
  \<^verbatim>\<open>null\<close> or \<^verbatim>\<open>undefined\<close>.
\<close>

record GithubIssueData =
  body :: string
  body_html :: string
  html_url :: "string option"
  title :: string
  root_issue :: "bool option"

text \<open>
  \<^verbatim>\<open>ParserGetChildrenResponse\<close>. The group of a record of the HTML strategy is the list's
  title, which is \<^verbatim>\<open>undefined\<close> (\<open>None\<close>) for a list without a previous element sibling.
\<close>

record ParserGetChildrenResponse =
  group :: "string option"
  html_url :: string

text \<open>The two fields of a parsed \<^verbatim>\<open>URL\<close> the parser reads.\<close>

record URL =
  host :: string
  href :: string

text \<open>
  The argument of \<^verbatim>\<open>ErrorManager.addError\<close>; its field \<^verbatim>\<open>issue\<close> is \<open>entry_issue\<close> here.
\<close>

record StarMapsError =
  entry_issue :: GithubIssueData
  userGuideSection :: string
  errorTitle :: string
  errorMessage :: string

text \<open>The value \<^verbatim>\<open>getDueDate\<close> returns.\<close>

record DueDate =
  eta :: string

section \<open>The document tree\<close>

text \<open>
  Modelled from the spec: the document tree of the markup parser (\<^verbatim>\<open>linkedom\<close>), which is
  not part of the repository. An element has a tag name, attributes and child nodes; the
  queries below are the ones the parser makes of it, with their DOM meaning.
\<close>

datatype node =
  Element string "(string \<times> string) list" "node list"
| Text string
| Comment string

text \<open>\<^verbatim>\<open>node.textContent\<close>: the text of all text nodes below, in document order.\<close>

fun textContent :: "node \<Rightarrow> string" where
  "textContent (Element tag attrs kids) = concat (map textContent kids)"
| "textContent (Text t) = t"
| "textContent (Comment t) = []"

text \<open>
  An element as a query returns it: the element with its \<^verbatim>\<open>previousElementSibling\<close>
  (\<open>None\<close> for \<^verbatim>\<open>null\<close>).
\<close>

type_synonym element = "node option \<times> node"

definition previousElementSibling :: "element \<Rightarrow> node option" where
  "previousElementSibling e = fst e"

text \<open>
  All elements below a list of sibling nodes, in document order, each with its previous
  element sibling; \<open>prev\<close> is the last element seen among the siblings so far.
\<close>

fun elementsOf :: "node option \<Rightarrow> node list \<Rightarrow> element list" where
  "elementsOf prev [] = []"
| "elementsOf prev (Element tag attrs kids # ns) =
     (prev, Element tag attrs kids) # elementsOf None kids
       @ elementsOf (Some (Element tag attrs kids)) ns"
| "elementsOf prev (Text t # ns) = elementsOf prev ns"
| "elementsOf prev (Comment t # ns) = elementsOf prev ns"

fun tagName :: "node \<Rightarrow> string" where
  "tagName (Element tag attrs kids) = tag"
| "tagName (Text t) = []"
| "tagName (Comment t) = []"

fun attributes :: "node \<Rightarrow> (string \<times> string) list" where
  "attributes (Element tag attrs kids) = attrs"
| "attributes (Text t) = []"
| "attributes (Comment t) = []"

fun childNodes :: "node \<Rightarrow> node list" where
  "childNodes (Element tag attrs kids) = kids"
| "childNodes (Text t) = []"
| "childNodes (Comment t) = []"

text \<open>\<^verbatim>\<open>document.querySelectorAll('*')\<close>\<close>

definition querySelectorAll_any :: "node list \<Rightarrow> element list" where
  "querySelectorAll_any document = elementsOf None document"

text \<open>\<^verbatim>\<open>document.querySelectorAll('ul')\<close>\<close>

definition querySelectorAll_ul :: "node list \<Rightarrow> element list" where
  "querySelectorAll_ul document =
     filter (\<lambda>e. tagName (snd e) = ''ul'') (elementsOf None document)"

text \<open>
  The selector \<^verbatim>\<open>a[href][data-hovercard-type*="issue"]\<close>: an \<^verbatim>\<open>a\<close> element with an
  \<^verbatim>\<open>href\<close> attribute and a \<^verbatim>\<open>data-hovercard-type\<close> attribute whose value contains
  \<^verbatim>\<open>issue\<close>.
\<close>

definition isIssueAnchor :: "node \<Rightarrow> bool" where
  "isIssueAnchor n =
     (tagName n = ''a''
      \<and> map_of (attributes n) ''href'' \<noteq> None
      \<and> (case map_of (attributes n) ''data-hovercard-type'' of
            None \<Rightarrow> False
          | Some v \<Rightarrow> includes_str v ''issue''))"

text \<open>\<^verbatim>\<open>b.querySelectorAll('a[href][data-hovercard-type*="issue"]')\<close>: the descendants of \<open>b\<close>.\<close>

definition querySelectorAll_issueAnchors :: "element \<Rightarrow> element list" where
  "querySelectorAll_issueAnchors b =
     filter (\<lambda>e. isIssueAnchor (snd e)) (elementsOf None (childNodes (snd b)))"

section \<open>Collaborators\<close>

text \<open>
  The functions the parser imports from modules that are not in \<^verbatim>\<open>src/\<close>, taken as
  parameters: \<^verbatim>\<open>parseHTML\<close> (markup to document tree, total on strings), the getter of
  the \<^verbatim>\<open>href\<close> property of an anchor element, \<^verbatim>\<open>getValidUrlFromInput\<close>, \<^verbatim>\<open>getEtaDate\<close> and
  \<^verbatim>\<open>paramsFromUrl\<close> (each of these four may throw) and \<^verbatim>\<open>isValidChildren\<close>. The \<^verbatim>\<open>href\<close>
  getter of the markup library decodes and encodes the attribute again, and throws on a
  malformed percent escape; what it returns is the value the parser reads.
\<close>

record collaborators =
  parseHTML :: "string \<Rightarrow> node list"
  hrefOf :: "node \<Rightarrow> error + string"
  getValidUrlFromInput :: "string \<Rightarrow> error + URL"
  getEtaDate :: "string \<Rightarrow> error + string"
  isValidChildren :: "string option \<Rightarrow> bool"
  paramsFromUrl :: "string option \<Rightarrow> error + string \<times> string"

text \<open>
  Modelled from the spec: the error collector (\<^verbatim>\<open>ErrorManager\<close>, not in \<^verbatim>\<open>src/\<close>) as the
  sequence of entries it was given; \<^verbatim>\<open>addError\<close> appends one entry.
\<close>

type_synonym ErrorManager = "StarMapsError list"

definition addError :: "ErrorManager \<Rightarrow> StarMapsError \<Rightarrow> ErrorManager" where
  "addError errorManager entry = errorManager @ [entry]"

section \<open>The parser\<close>

text \<open>
  The \<^verbatim>\<open>issueText\<close> of \<^verbatim>\<open>getDueDate\<close>: the text content of every element of the parsed
  \<^verbatim>\<open>body_html\<close>, joined by line feeds.
\<close>

definition issueText :: "collaborators \<Rightarrow> GithubIssueData \<Rightarrow> string" where
  "issueText c issue =
     (let document = parseHTML c (body_html issue)
      in join ''\<newline>'' (map (\<lambda>v. textContent (snd v)) (querySelectorAll_any document)))"

text \<open>
  \<^verbatim>\<open>getDueDate(issue, errorManager)\<close>, returning the result and the error collector after
  the call. \<open>eta\<close> starts as \<^verbatim>\<open>null\<close> (\<open>None\<close>) and stays so when \<^verbatim>\<open>getEtaDate\<close> throws;
  \<^verbatim>\<open>eta ?? ''\<close> is the result.
\<close>

definition getDueDate ::
  "collaborators \<Rightarrow> GithubIssueData \<Rightarrow> ErrorManager \<Rightarrow> DueDate \<times> ErrorManager" where
  "getDueDate c issue errorManager =
     (let (eta, errorManager') =
            (case getEtaDate c (issueText c issue) of
               Inr s \<Rightarrow> (Some s, errorManager)
             | Inl e \<Rightarrow>
                 (None,
                  if GithubIssueData.html_url issue \<noteq> None \<and> root_issue issue \<noteq> Some True
                  then addError errorManager
                         \<lparr>entry_issue = issue, userGuideSection = ''#eta'',
                          errorTitle = ''ETA not found'',
                          errorMessage = ''ETA not found in issue body''\<rparr>
                  else errorManager))
      in (\<lparr>eta = (case eta of Some s \<Rightarrow> s | None \<Rightarrow> [])\<rparr>, errorManager'))"

text \<open>The character class \<^verbatim>\<open>\d\<close>.\<close>

definition isDigit :: "char \<Rightarrow> bool" where
  "isDigit c = (c \<in> set ''0123456789'')"

text \<open>\<^verbatim>\<open>/^#\d+$/.test(line)\<close>\<close>

fun isShortRef :: "string \<Rightarrow> bool" where
  "isShortRef [] = False"
| "isShortRef (c # ds) = (c = CHR ''#'' \<and> ds \<noteq> [] \<and> list_all isDigit ds)"

text \<open>\<^verbatim>\<open>getUrlStringForChildrenLine(line, issue)\<close>\<close>

definition getUrlStringForChildrenLine ::
  "collaborators \<Rightarrow> string \<Rightarrow> GithubIssueData \<Rightarrow> error + string" where
  "getUrlStringForChildrenLine c line issue =
     (case (if isShortRef line
            then (case paramsFromUrl c (GithubIssueData.html_url issue) of
                    Inl e \<Rightarrow> Inl e
                  | Inr (owner, repo) \<Rightarrow> Inr (owner @ ''/'' @ repo @ line))
            else Inr line) of
        Inl e \<Rightarrow> Inl e
      | Inr line' \<Rightarrow>
          (case getValidUrlFromInput c line' of
             Inl e \<Rightarrow> Inl e
           | Inr url \<Rightarrow>
               if \<not> includes_str (host url) ''github.com''
               then Inl (Error ''Invalid host for children item'')
               else Inr (href url)))"

text \<open>
  \<^verbatim>\<open>getValidChildrenLinks(lines, issue)\<close>: the loop pushes each resolved line and breaks at
  the first line whose resolution throws.
\<close>

fun getValidChildrenLinks_loop ::
  "collaborators \<Rightarrow> GithubIssueData \<Rightarrow> string list \<Rightarrow> string list \<Rightarrow> string list" where
  "getValidChildrenLinks_loop c issue validChildrenLinks [] = validChildrenLinks"
| "getValidChildrenLinks_loop c issue validChildrenLinks (line # lines) =
     (case getUrlStringForChildrenLine c line issue of
        Inl e \<Rightarrow> validChildrenLinks
      | Inr url \<Rightarrow> getValidChildrenLinks_loop c issue (validChildrenLinks @ [url]) lines)"

definition getValidChildrenLinks ::
  "collaborators \<Rightarrow> string list \<Rightarrow> GithubIssueData \<Rightarrow> string list" where
  "getValidChildrenLinks c lines issue = getValidChildrenLinks_loop c issue [] lines"

text \<open>\<^verbatim>\<open>convertLinesToChildren(lines, issue, group)\<close>\<close>

definition convertLinesToChildren ::
  "collaborators \<Rightarrow> string list \<Rightarrow> GithubIssueData \<Rightarrow> string \<Rightarrow> ParserGetChildrenResponse list" where
  "convertLinesToChildren c lines issue grp =
     map (\<lambda>url. \<lparr>group = Some grp, html_url = url\<rparr>) (getValidChildrenLinks c lines issue)"

text \<open>The \<^verbatim>\<open>lines\<close> of \<^verbatim>\<open>getChildrenFromTaskList\<close>.\<close>

definition taskListLines :: "GithubIssueData \<Rightarrow> string list" where
  "taskListLines issue =
     filter Boolean_str
       (map splitAndGetLastItem
          (filter ensureTaskListChild (getSectionLines (body issue) ''```[tasklist]'')))"

text \<open>\<^verbatim>\<open>getChildrenFromTaskList(issue)\<close>\<close>

definition getChildrenFromTaskList ::
  "collaborators \<Rightarrow> GithubIssueData \<Rightarrow> error + ParserGetChildrenResponse list" where
  "getChildrenFromTaskList c issue =
     (let lines = taskListLines issue
      in if length lines = 0 then Inl (Error ''Section missing or has no children'')
         else Inr (convertLinesToChildren c lines issue ''tasklist''))"

text \<open>The \<^verbatim>\<open>lines\<close> of \<^verbatim>\<open>getChildrenNew\<close>.\<close>

definition childrenLines :: "GithubIssueData \<Rightarrow> string list" where
  "childrenLines issue =
     filter Boolean_str (map splitAndGetLastItem (getSectionLines (body issue) ''children:''))"

text \<open>\<^verbatim>\<open>getChildrenNew(issue)\<close>: whatever \<^verbatim>\<open>getChildrenFromTaskList\<close> throws is caught.\<close>

definition getChildrenNew ::
  "collaborators \<Rightarrow> GithubIssueData \<Rightarrow> error + ParserGetChildrenResponse list" where
  "getChildrenNew c issue =
     (case getChildrenFromTaskList c issue of
        Inr children \<Rightarrow> Inr children
      | Inl e \<Rightarrow>
          (let lines = childrenLines issue
           in if length lines = 0 then Inl (Error ''Section missing or has no children'')
              else if list_ex (\<lambda>line. startsWith line ''<'') lines
              then Inl (Error ''HTML tags found in body_text'')
              else Inr (convertLinesToChildren c lines issue ''children:'')))"

text \<open>
  \<^verbatim>\<open>list.previousElementSibling?.textContent?.trim()\<close>, the title of a list.
\<close>

definition listTitle :: "element \<Rightarrow> string option" where
  "listTitle list = map_option (\<lambda>n. trim (textContent n)) (previousElementSibling list)"

text \<open>
  \<^verbatim>\<open>Array.prototype.map\<close> with a callback that may throw: the first throw ends the map and
  is what the map throws.
\<close>

fun map_throw :: "('a \<Rightarrow> error + 'b) \<Rightarrow> 'a list \<Rightarrow> error + 'b list" where
  "map_throw f [] = Inr []"
| "map_throw f (x # xs) =
     (case f x of
        Inl e \<Rightarrow> Inl e
      | Inr y \<Rightarrow> (case map_throw f xs of Inl e \<Rightarrow> Inl e | Inr ys \<Rightarrow> Inr (y # ys)))"

text \<open>\<^verbatim>\<open>Array.prototype.reduce\<close> with a callback that may throw, from an initial value.\<close>

fun reduce_throw :: "('b \<Rightarrow> 'a \<Rightarrow> error + 'b) \<Rightarrow> 'b \<Rightarrow> 'a list \<Rightarrow> error + 'b" where
  "reduce_throw f a [] = Inr a"
| "reduce_throw f a (b # bs) =
     (case f a b of Inl e \<Rightarrow> Inl e | Inr a' \<Rightarrow> reduce_throw f a' bs)"

text \<open>
  The second half of \<^verbatim>\<open>getChildren\<close>, reached when \<^verbatim>\<open>getChildrenNew\<close> throws: the lists of
  the rendered body whose title \<^verbatim>\<open>isValidChildren\<close> accepts, reduced to one item
  \<^verbatim>\<open>{ group, hrefs }\<close> per list, each item then mapped to its records. Reading the
  \<^verbatim>\<open>href\<close> of an anchor may throw, which ends the reduction; nothing catches it. The first
  \<^verbatim>\<open>flat()\<close> leaves the items, which are not arrays, as they are; the second one
  concatenates the records of the items.
\<close>

definition getChildrenFromHtml ::
  "collaborators \<Rightarrow> GithubIssueData \<Rightarrow> error + ParserGetChildrenResponse list" where
  "getChildrenFromHtml c issue =
     (let document = parseHTML c (body_html issue);
          ulLists = querySelectorAll_ul document;
          filterListByTitle = filter (\<lambda>list. isValidChildren c (listTitle list))
      in case reduce_throw
                (\<lambda>a b. case map_throw (\<lambda>v. hrefOf c (snd v)) (querySelectorAll_issueAnchors b) of
                          Inl e \<Rightarrow> Inl e
                        | Inr listHrefs \<Rightarrow> Inr (a @ [(listTitle b, listHrefs)]))
                [] (filterListByTitle ulLists) of
           Inl e \<Rightarrow> Inl e
         | Inr items \<Rightarrow>
             Inr (concat (map (\<lambda>item. map (\<lambda>href. \<lparr>group = fst item, html_url = href\<rparr>)
                                       (snd item)) items)))"

text \<open>
  \<^verbatim>\<open>getChildren(issue)\<close>: whatever \<^verbatim>\<open>getChildrenNew\<close> throws is caught; what the second
  half throws reaches the caller.
\<close>

definition getChildren ::
  "collaborators \<Rightarrow> GithubIssueData \<Rightarrow> error + ParserGetChildrenResponse list" where
  "getChildren c issue =
     (case getChildrenNew c issue of
        Inr children \<Rightarrow> Inr children
      | Inl e \<Rightarrow> getChildrenFromHtml c issue)"

section \<open>Sample collaborators\<close>

text \<open>
  Simple stand-ins for the imported functions, used to run the parser on concrete issues.
  They follow the cases of \<^verbatim>\<open>src/tests/unit/parser.test.ts\<close>: a child is given as an
  \<^verbatim>\<open>https\<close> URL or as \<^verbatim>\<open>owner/repo#N\<close>, and an issue URL has the shape
  \<^verbatim>\<open>https://github.com/owner/repo/issues/N\<close>.
\<close>

definition sample_getValidUrlFromInput :: "string \<Rightarrow> error + URL" where
  "sample_getValidUrlFromInput s =
     (if prefix ''https://'' s
      then Inr \<lparr>host = takeWhile (\<lambda>c. c \<noteq> CHR ''/'') (drop 8 s), href = s\<rparr>
      else (let path = takeWhile (\<lambda>c. c \<noteq> CHR ''#'') s;
                num = drop (Suc (length path)) s
            in if CHR ''/'' \<in> set path \<and> num \<noteq> [] \<and> list_all isDigit num
               then Inr \<lparr>host = ''github.com'',
                         href = ''https://github.com/'' @ path @ ''/issues/'' @ num\<rparr>
               else Inl (Error ''Invalid URL'')))"

definition sample_paramsFromUrl :: "string option \<Rightarrow> error + string \<times> string" where
  "sample_paramsFromUrl url =
     (case url of
        None \<Rightarrow> Inl (Error ''Invalid URL: null'')
      | Some s \<Rightarrow>
          if prefix ''https://github.com/'' s
          then (case split_str ''/'' (drop 19 s) of
                  owner # repo # rest \<Rightarrow> Inr (owner, repo)
                | _ \<Rightarrow> Inl (Error (''Could not find URL parameters: '' @ s)))
          else Inl (Error (''Invalid URL: '' @ s)))"

definition sample_getEtaDate :: "string \<Rightarrow> error + string" where
  "sample_getEtaDate text =
     (case indexOf text ''eta: '' of
        None \<Rightarrow> Inl (Error ''No ETA found'')
      | Some k \<Rightarrow> Inr (takeWhile (\<lambda>c. \<not> isLineBreak c) (drop (k + 5) text)))"

definition sample_isValidChildren :: "string option \<Rightarrow> bool" where
  "sample_isValidChildren t = (t = Some ''children:'' \<or> t = Some ''children'')"

text \<open>
  A stand-in for the \<^verbatim>\<open>href\<close> getter. It throws, as \<^verbatim>\<open>decodeURI\<close> does, when the attribute
  holds a \<^verbatim>\<open>%\<close> that is not followed by two hexadecimal digits, and returns the attribute
  otherwise. It agrees with the getter on these values and on every value made of
  characters that \<^verbatim>\<open>encodeURI\<close> leaves alone; a value with escapes or with other
  characters is returned as it is here, where the getter would encode it again.
\<close>

definition isHexDigit :: "char \<Rightarrow> bool" where
  "isHexDigit c = (c \<in> set ''0123456789abcdefABCDEF'')"

fun malformedEscape :: "string \<Rightarrow> bool" where
  "malformedEscape [] = False"
| "malformedEscape (c # cs) =
     (if c = CHR ''%''
      then (case cs of
              h1 # h2 # rest \<Rightarrow> \<not> (isHexDigit h1 \<and> isHexDigit h2) \<or> malformedEscape cs
            | _ \<Rightarrow> True)
      else malformedEscape cs)"

definition sample_hrefOf :: "node \<Rightarrow> error + string" where
  "sample_hrefOf n =
     (case map_of (attributes n) ''href'' of
        None \<Rightarrow> Inr []
      | Some v \<Rightarrow> if malformedEscape v then Inl (Error ''URI malformed'') else Inr v)"

definition sample_markup :: string where
  "sample_markup =
     ''<p>children:</p><ul><li><a href=https://github.com/o/r/issues/5 data-hovercard-type=issue>o/r#5</a></li><li><a href=https://example.org/x data-hovercard-type=issue>x</a></li><li><a href=https://github.com/o/r/pull/6 data-hovercard-type=pull_request>o/r#6</a></li></ul><p>eta: 2023Q2</p>''"

definition sample_document :: "node list" where
  "sample_document =
     [Element ''p'' [] [Text ''children:''],
      Element ''ul'' []
        [Element ''li'' []
           [Element ''a'' [(''href'', ''https://github.com/o/r/issues/5''),
                          (''data-hovercard-type'', ''issue'')] [Text ''o/r#5'']],
         Element ''li'' []
           [Element ''a'' [(''href'', ''https://example.org/x''),
                          (''data-hovercard-type'', ''issue'')] [Text ''x'']],
         Element ''li'' []
           [Element ''a'' [(''href'', ''https://github.com/o/r/pull/6''),
                          (''data-hovercard-type'', ''pull_request'')] [Text ''o/r#6'']]],
      Element ''p'' [] [Text ''eta: 2023Q2'']]"

text \<open>A rendered body whose second anchor has an \<^verbatim>\<open>href\<close> that ends in a lone \<^verbatim>\<open>%\<close>.\<close>

definition sample_markup_bad_href :: string where
  "sample_markup_bad_href =
     ''<p>children:</p><ul><li><a href=https://github.com/o/r/issues/5 data-hovercard-type=issue>o/r#5</a></li><li><a href=https://github.com/o/r/issues?q=50% data-hovercard-type=issue>half</a></li><li><a href=https://github.com/o/r/issues/7 data-hovercard-type=issue>o/r#7</a></li></ul>''"

definition sample_document_bad_href :: "node list" where
  "sample_document_bad_href =
     [Element ''p'' [] [Text ''children:''],
      Element ''ul'' []
        [Element ''li'' []
           [Element ''a'' [(''href'', ''https://github.com/o/r/issues/5''),
                          (''data-hovercard-type'', ''issue'')] [Text ''o/r#5'']],
         Element ''li'' []
           [Element ''a'' [(''href'', ''https://github.com/o/r/issues?q=50%''),
                          (''data-hovercard-type'', ''issue'')] [Text ''half'']],
         Element ''li'' []
           [Element ''a'' [(''href'', ''https://github.com/o/r/issues/7''),
                          (''data-hovercard-type'', ''issue'')] [Text ''o/r#7'']]]]"

definition sample_parseHTML :: "string \<Rightarrow> node list" where
  "sample_parseHTML s =
     (if s = sample_markup then sample_document
      else if s = sample_markup_bad_href then sample_document_bad_href
      else [])"

definition sample :: collaborators where
  "sample =
     \<lparr>parseHTML = sample_parseHTML, hrefOf = sample_hrefOf,
      getValidUrlFromInput = sample_getValidUrlFromInput,
      getEtaDate = sample_getEtaDate,
      isValidChildren = sample_isValidChildren,
      paramsFromUrl = sample_paramsFromUrl\<rparr>"

section \<open>Sample issues\<close>

text \<open>A body with a tasklist block followed by a \<^verbatim>\<open>children:\<close> list.\<close>

definition issue_tasklist_then_children :: GithubIssueData where
  "issue_tasklist_then_children =
     \<lparr>body = ''```[tasklist]\<newline>- [ ] #1\<newline>```\<newline>children:\<newline>- #2'',
      body_html = sample_markup,
      html_url = Some ''https://github.com/o/r/issues/9'',
      title = ''Roadmap'', root_issue = Some False\<rparr>"

text \<open>The same body without the \<^verbatim>\<open>children:\<close> list.\<close>

definition issue_tasklist_only :: GithubIssueData where
  "issue_tasklist_only =
     \<lparr>body = ''```[tasklist]\<newline>- [ ] #1\<newline>```\<newline>'',
      body_html = sample_markup,
      html_url = Some ''https://github.com/o/r/issues/9'',
      title = ''Roadmap'', root_issue = Some False\<rparr>"

text \<open>A body with a \<^verbatim>\<open>children:\<close> list followed by a tasklist block.\<close>

definition issue_children_then_tasklist :: GithubIssueData where
  "issue_children_then_tasklist =
     \<lparr>body = ''children:\<newline>- #2\<newline>```[tasklist]\<newline>- [ ] #1\<newline>```'',
      body_html = sample_markup,
      html_url = Some ''https://github.com/o/r/issues/9'',
      title = ''Roadmap'', root_issue = Some False\<rparr>"

text \<open>A body that is rendered HTML, as the guard of \<^verbatim>\<open>getChildrenNew\<close> expects to catch.\<close>

definition issue_html_in_body :: GithubIssueData where
  "issue_html_in_body =
     \<lparr>body = ''<p>children:</p>\<newline><ul>\<newline><li>x</li>\<newline></ul>'',
      body_html = sample_markup,
      html_url = Some ''https://github.com/o/r/issues/9'',
      title = ''Roadmap'', root_issue = Some False\<rparr>"

text \<open>A tasklist whose first line does not resolve.\<close>

definition issue_tasklist_bad_first :: GithubIssueData where
  "issue_tasklist_bad_first =
     \<lparr>body = ''```[tasklist]\<newline>- [ ] todo\<newline>- [ ] #2\<newline>```'',
      body_html = sample_markup,
      html_url = Some ''https://github.com/o/r/issues/9'',
      title = ''Roadmap'', root_issue = Some False\<rparr>"

text \<open>A \<^verbatim>\<open>children:\<close> list whose first line does not resolve.\<close>

definition issue_children_bad_first :: GithubIssueData where
  "issue_children_bad_first =
     \<lparr>body = ''children:\<newline>- see below\<newline>- #2'',
      body_html = sample_markup,
      html_url = Some ''https://github.com/o/r/issues/9'',
      title = ''Roadmap'', root_issue = Some False\<rparr>"

text \<open>An issue without conventions in its body.\<close>

definition issue_html_only :: GithubIssueData where
  "issue_html_only =
     \<lparr>body = ''nothing here'', body_html = sample_markup,
      html_url = Some ''https://github.com/o/r/issues/9'',
      title = ''Roadmap'', root_issue = Some False\<rparr>"

text \<open>An issue without conventions in its body whose rendered body has the bad \<^verbatim>\<open>href\<close>.\<close>

definition issue_bad_href :: GithubIssueData where
  "issue_bad_href =
     \<lparr>body = ''nothing here'', body_html = sample_markup_bad_href,
      html_url = Some ''https://github.com/o/r/issues/9'',
      title = ''Roadmap'', root_issue = Some False\<rparr>"

text \<open>An issue whose URL is the empty string and whose rendered body has no ETA.\<close>

definition issue_empty_url :: GithubIssueData where
  "issue_empty_url =
     \<lparr>body = [], body_html = [], html_url = Some [], title = ''Roadmap'',
      root_issue = Some False\<rparr>"

text \<open>
  A body with an introduction and a \<^verbatim>\<open>children:\<close> section of three lines: a markdown
  link, a short reference between spaces, and prose with parentheses.
\<close>

definition sample_text :: string where
  "sample_text =
     ''intro\<newline>children:\<newline>- [a](https://github.com/o/r/issues/5)\<newline>\<newline>  #12  \<newline>see (docs) here''"

text \<open>The entry \<^verbatim>\<open>getDueDate\<close> gives to \<^verbatim>\<open>addError\<close>.\<close>

definition etaNotFound :: "GithubIssueData \<Rightarrow> StarMapsError" where
  "etaNotFound issue =
     \<lparr>entry_issue = issue, userGuideSection = ''#eta'', errorTitle = ''ETA not found'',
      errorMessage = ''ETA not found in issue body''\<rparr>"

section \<open>Definitions for the statements\<close>

text \<open>
  The validation that follows the short-reference expansion in
  \<^verbatim>\<open>getUrlStringForChildrenLine\<close>: the line must parse as a URL whose host contains
  \<^verbatim>\<open>github.com\<close>.
\<close>

definition validatedHref :: "collaborators \<Rightarrow> string \<Rightarrow> error + string" where
  "validatedHref c line =
     (case getValidUrlFromInput c line of
        Inl e \<Rightarrow> Inl e
      | Inr url \<Rightarrow>
          if includes_str (host url) ''github.com'' then Inr (href url)
          else Inl (Error ''Invalid host for children item''))"

text \<open>
  The markdown-link unwrap as the specification words it: split the line on \<^verbatim>\<open>](\<close>, take
  the last segment, strip one trailing \<^verbatim>\<open>)\<close> if present.
\<close>

definition unwrap_spec :: "string \<Rightarrow> string" where
  "unwrap_spec line =
     (let seg = last (split_str '']('' line)
      in if seg \<noteq> [] \<and> last seg = CHR 0x29 then butlast seg else seg)"

section \<open>Facts about the string primitives\<close>

lemma indexOf_Some_first:
  "indexOf s p = Some k \<Longrightarrow> prefix p (drop k s) \<and> (\<forall>j<k. \<not> prefix p (drop j s))"
proof (induction s arbitrary: k)
  case Nil
  then show ?case by (simp split: if_splits)
next
  case (Cons c cs)
  show ?case
  proof (cases "prefix p (c # cs)")
    case True
    with Cons.prems show ?thesis by simp
  next
    case False
    with Cons.prems obtain k' where k': "indexOf cs p = Some k'" "k = Suc k'"
      by auto
    from Cons.IH [OF k'(1)] have ih: "prefix p (drop k' cs)" "\<forall>j<k'. \<not> prefix p (drop j cs)"
      by simp_all
    have "\<not> prefix p (drop j (c # cs))" if "j < k" for j
      using that False ih(2) k'(2) by (cases j) simp_all
    with ih(1) k'(2) show ?thesis by simp
  qed
qed

lemma indexOf_None_iff:
  "indexOf s p = None \<longleftrightarrow> (\<forall>j. \<not> prefix p (drop j s))"
proof (induction s)
  case Nil
  then show ?case by simp
next
  case (Cons c cs)
  show ?case
  proof
    assume a: "indexOf (c # cs) p = None"
    then have np: "\<not> prefix p (c # cs)" and "indexOf cs p = None"
      by (auto split: if_splits)
    with Cons.IH have ih: "\<forall>j. \<not> prefix p (drop j cs)" by simp
    show "\<forall>j. \<not> prefix p (drop j (c # cs))"
    proof
      fix j show "\<not> prefix p (drop j (c # cs))"
        using np ih by (cases j) simp_all
    qed
  next
    assume a: "\<forall>j. \<not> prefix p (drop j (c # cs))"
    from a [rule_format, of 0] have np: "\<not> prefix p (c # cs)" by simp
    have "\<not> prefix p (drop j cs)" for j
      using a [rule_format, of "Suc j"] by simp
    with Cons.IH have "indexOf cs p = None" by simp
    with np show "indexOf (c # cs) p = None" by simp
  qed
qed

lemma indexOf_drop:
  assumes "indexOf s p = Some k"
  shows "indexOf (drop k s) p = Some 0"
proof -
  from indexOf_Some_first [OF assms] have "prefix p (drop k s)" by simp
  then show ?thesis by (cases "drop k s") simp_all
qed

lemma split_str_not_Nil: "split_str sep s \<noteq> []"
  by (induction sep s rule: split_str.induct) (auto split: list.splits)

lemma split_str_no_sep:
  "indexOf s sep = None \<Longrightarrow> split_str sep s = [s]"
proof (induction s)
  case Nil
  then show ?case by simp
next
  case (Cons c cs)
  then have "\<not> prefix sep (c # cs)" and "indexOf cs sep = None"
    by (auto split: if_splits)
  with Cons.IH show ?case by simp
qed

lemma join_Cons_hd: "join sep ((c # seg) # segs) = c # join sep (seg # segs)"
  by (cases segs) simp_all

lemma join_snoc: "xs \<noteq> [] \<Longrightarrow> join sep (xs @ [l]) = join sep xs @ sep @ l"
  by (induction sep xs rule: join.induct) simp_all

lemma join_split_str: "join sep (split_str sep s) = s"
proof (induction sep s rule: split_str.induct)
  case (1 sep)
  show ?case by simp
next
  case (2 sep c cs)
  show ?case
  proof (cases "sep \<noteq> [] \<and> prefix sep (c # cs)")
    case True
    let ?rest = "drop (length sep) (c # cs)"
    obtain x xs where x: "split_str sep ?rest = x # xs"
      using split_str_not_Nil [of sep ?rest] by (cases "split_str sep ?rest") auto
    from True have "c # cs = sep @ ?rest"
      by (auto simp: prefix_def)
    moreover have "join sep (split_str sep (c # cs)) = sep @ join sep (split_str sep ?rest)"
      using True x by simp
    ultimately show ?thesis using "2.IH"(1) [OF True] by simp
  next
    case False
    obtain seg segs where segs: "split_str sep cs = seg # segs"
      using split_str_not_Nil [of sep cs] by (cases "split_str sep cs") auto
    have "split_str sep (c # cs) = (c # seg) # segs"
      using False segs by auto
    then show ?thesis using "2.IH"(2) [OF False] segs by (simp add: join_Cons_hd)
  qed
qed

lemma last_split_str_suffix:
  "\<exists>pre. s = pre @ last (split_str sep s) \<and> (pre = [] \<or> suffix sep pre)"
proof -
  define segs where "segs = split_str sep s"
  have ne: "segs \<noteq> []" by (simp add: segs_def split_str_not_Nil)
  have j: "join sep segs = s" by (simp add: segs_def join_split_str)
  have segs: "segs = butlast segs @ [last segs]" using ne by simp
  show ?thesis
  proof (cases "butlast segs = []")
    case True
    with segs have "segs = [last segs]" by simp
    then have "join sep segs = last segs" by (cases segs) simp_all
    with j show ?thesis by (simp add: segs_def)
  next
    case False
    have "join sep (butlast segs @ [last segs]) = join sep (butlast segs) @ sep @ last segs"
      by (rule join_snoc [OF False])
    with segs have "join sep segs = join sep (butlast segs) @ sep @ last segs" by simp
    with j have "s = (join sep (butlast segs) @ sep) @ last (split_str sep s)"
      by (simp add: segs_def)
    moreover have "suffix sep (join sep (butlast segs) @ sep)"
      by (simp add: suffix_def)
    ultimately show ?thesis by blast
  qed
qed

lemma last_split_str_no_sep:
  "sep \<noteq> [] \<Longrightarrow> indexOf (last (split_str sep s)) sep = None"
proof (induction sep s rule: split_str.induct)
  case (1 sep)
  then show ?case by simp
next
  case (2 sep c cs)
  show ?case
  proof (cases "prefix sep (c # cs)")
    case True
    with "2.prems" have t: "sep \<noteq> [] \<and> prefix sep (c # cs)" by simp
    have "last (split_str sep (c # cs)) = last (split_str sep (drop (length sep) (c # cs)))"
      using t split_str_not_Nil [of sep "drop (length sep) (c # cs)"] by simp
    with "2.IH"(1) [OF t "2.prems"] show ?thesis by simp
  next
    case False
    then have f: "\<not> (sep \<noteq> [] \<and> prefix sep (c # cs))" by simp
    obtain seg segs where segs: "split_str sep cs = seg # segs"
      using split_str_not_Nil [of sep cs] by (cases "split_str sep cs") auto
    have sp: "split_str sep (c # cs) = (c # seg) # segs"
      using False segs by auto
    show ?thesis
    proof (cases segs)
      case Nil
      with segs have "join sep (split_str sep cs) = seg" by simp
      then have "seg = cs" by (simp add: join_split_str)
      with "2.IH"(2) [OF f "2.prems"] segs Nil have "indexOf cs sep = None" by simp
      with False sp Nil \<open>seg = cs\<close> show ?thesis by simp
    next
      case (Cons a as)
      with sp segs have "last (split_str sep (c # cs)) = last (split_str sep cs)" by simp
      with "2.IH"(2) [OF f "2.prems"] show ?thesis by simp
    qed
  qed
qed

lemma splitLines_last:
  assumes "dropWhile (\<lambda>c. \<not> isLineBreak c) s = []"
  shows "splitLines s = [takeWhile (\<lambda>c. \<not> isLineBreak c) s]"
proof -
  have "splitLines s =
     (let seg = takeWhile (\<lambda>c. \<not> isLineBreak c) s;
          rest = dropWhile (\<lambda>c. \<not> isLineBreak c) s
      in if rest = [] then [seg]
         else seg # splitLines (dropWhile isLineBreak rest))"
    by (rule splitLines.simps)
  also have "\<dots> = [takeWhile (\<lambda>c. \<not> isLineBreak c) s]"
    unfolding Let_def assms by simp
  finally show ?thesis .
qed

lemma splitLines_more:
  assumes "dropWhile (\<lambda>c. \<not> isLineBreak c) s \<noteq> []"
  shows "splitLines s = takeWhile (\<lambda>c. \<not> isLineBreak c) s
                  # splitLines (dropWhile isLineBreak (dropWhile (\<lambda>c. \<not> isLineBreak c) s))"
proof -
  have "splitLines s =
     (let seg = takeWhile (\<lambda>c. \<not> isLineBreak c) s;
          rest = dropWhile (\<lambda>c. \<not> isLineBreak c) s
      in if rest = [] then [seg]
         else seg # splitLines (dropWhile isLineBreak rest))"
    by (rule splitLines.simps)
  also have "\<dots> = takeWhile (\<lambda>c. \<not> isLineBreak c) s
                  # splitLines (dropWhile isLineBreak (dropWhile (\<lambda>c. \<not> isLineBreak c) s))"
    unfolding Let_def using assms by (simp only: if_False)
  finally show ?thesis .
qed

lemma splitLines_no_breaks: "l \<in> set (splitLines s) \<Longrightarrow> c \<in> set l \<Longrightarrow> \<not> isLineBreak c"
proof (induction s arbitrary: l rule: splitLines.induct)
  case (1 s)
  let ?seg = "takeWhile (\<lambda>c. \<not> isLineBreak c) s"
  let ?rest = "dropWhile (\<lambda>c. \<not> isLineBreak c) s"
  show ?case
  proof (cases "?rest = []")
    case True
    with "1.prems" have "c \<in> set ?seg" by (simp add: splitLines_last)
    then show ?thesis by (auto dest: set_takeWhileD)
  next
    case False
    note sl = splitLines_more [OF False]
    show ?thesis
    proof (cases "l = ?seg")
      case True
      with "1.prems" show ?thesis by (auto dest: set_takeWhileD)
    next
      case False
      with sl "1.prems" have "l \<in> set (splitLines (dropWhile isLineBreak ?rest))" by simp
      from "1.IH" [OF refl refl \<open>?rest \<noteq> []\<close> this "1.prems"(2)] show ?thesis .
    qed
  qed
qed

lemma filter_dropWhile_neg: "filter (\<lambda>c. \<not> P c) (dropWhile P xs) = filter (\<lambda>c. \<not> P c) xs"
  by (induction xs) simp_all

lemma concat_splitLines: "concat (splitLines s) = filter (\<lambda>c. \<not> isLineBreak c) s"
proof (induction s rule: splitLines.induct)
  case (1 s)
  let ?seg = "takeWhile (\<lambda>c. \<not> isLineBreak c) s"
  let ?rest = "dropWhile (\<lambda>c. \<not> isLineBreak c) s"
  have "filter (\<lambda>c. \<not> isLineBreak c) (?seg @ ?rest)
      = filter (\<lambda>c. \<not> isLineBreak c) ?seg @ filter (\<lambda>c. \<not> isLineBreak c) ?rest"
    by (rule filter_append)
  then have s: "filter (\<lambda>c. \<not> isLineBreak c) s
      = filter (\<lambda>c. \<not> isLineBreak c) ?seg @ filter (\<lambda>c. \<not> isLineBreak c) ?rest"
    by simp
  have seg: "filter (\<lambda>c. \<not> isLineBreak c) ?seg = ?seg"
    by (rule filter_True) (auto dest: set_takeWhileD)
  show ?case
  proof (cases "?rest = []")
    case True
    then show ?thesis using s seg by (simp add: splitLines_last)
  next
    case False
    from "1.IH" [OF refl refl False]
    have "concat (splitLines (dropWhile isLineBreak ?rest)) = filter (\<lambda>c. \<not> isLineBreak c) ?rest"
      by (simp only: filter_dropWhile_neg)
    then show ?thesis using s seg by (simp add: splitLines_more [OF False])
  qed
qed

lemma dropWhile_hd: "xs = [] \<or> \<not> P (hd xs) \<Longrightarrow> dropWhile P xs = xs"
  by (cases xs) auto

lemma trim_id:
  assumes "s = [] \<or> (\<not> isWhiteSpace (hd s) \<and> \<not> isWhiteSpace (last s))"
  shows "trim s = s"
proof -
  from assms have "dropWhile isWhiteSpace s = s"
    by (intro dropWhile_hd) auto
  moreover from assms have "rev s = [] \<or> \<not> isWhiteSpace (hd (rev s))"
    by (cases "s = []") (simp_all add: hd_rev)
  then have "dropWhile isWhiteSpace (rev s) = rev s"
    by (rule dropWhile_hd)
  ultimately show ?thesis by (simp add: trim_def)
qed


lemma trim_spec:
  "\<exists>a b. line = a @ trim line @ b
     \<and> (\<forall>c \<in> set a. isWhiteSpace c) \<and> (\<forall>c \<in> set b. isWhiteSpace c)
     \<and> (trim line = []
         \<or> \<not> isWhiteSpace (hd (trim line)) \<and> \<not> isWhiteSpace (last (trim line)))"
proof -
  define a where "a = takeWhile isWhiteSpace line"
  define d where "d = dropWhile isWhiteSpace line"
  define b where "b = rev (takeWhile isWhiteSpace (rev d))"
  have t: "trim line = rev (dropWhile isWhiteSpace (rev d))"
    by (simp add: trim_def d_def)
  have "rev d = takeWhile isWhiteSpace (rev d) @ dropWhile isWhiteSpace (rev d)"
    by simp
  then have "rev (rev d) = rev (takeWhile isWhiteSpace (rev d) @ dropWhile isWhiteSpace (rev d))"
    by (rule arg_cong)
  then have d: "d = trim line @ b"
    by (simp only: rev_rev_ident rev_append t b_def)
  have "line = a @ d" by (simp add: a_def d_def)
  with d have 1: "line = a @ trim line @ b" by simp
  have 2: "\<forall>c \<in> set a. isWhiteSpace c"
    unfolding a_def by (auto dest: set_takeWhileD)
  have 3: "\<forall>c \<in> set b. isWhiteSpace c"
    unfolding b_def by (auto dest: set_takeWhileD)
  have 4: "trim line = []
         \<or> \<not> isWhiteSpace (hd (trim line)) \<and> \<not> isWhiteSpace (last (trim line))"
  proof (cases "trim line = []")
    case True
    then show ?thesis by simp
  next
    case False
    then have ne: "dropWhile isWhiteSpace (rev d) \<noteq> []" by (simp add: t)
    then have "\<not> isWhiteSpace (hd (dropWhile isWhiteSpace (rev d)))" by (rule hd_dropWhile)
    then have l: "\<not> isWhiteSpace (last (trim line))"
      using ne by (simp add: t last_rev)
    from False d have "d \<noteq> []" by auto
    then have "\<not> isWhiteSpace (hd d)" unfolding d_def by (rule hd_dropWhile)
    moreover from d False have "hd d = hd (trim line)" by (metis hd_append2)
    ultimately show ?thesis using l by simp
  qed
  from 1 2 3 4 show ?thesis by blast
qed

lemma splitLines_single:
  assumes "\<forall>c \<in> set s. \<not> isLineBreak c"
  shows "splitLines s = [s]"
proof -
  from assms have "dropWhile (\<lambda>c. \<not> isLineBreak c) s = []" by simp
  moreover from assms have "takeWhile (\<lambda>c. \<not> isLineBreak c) s = s" by simp
  ultimately show ?thesis using splitLines_last [of s] by simp
qed

lemma splitLines_run:
  assumes l: "\<forall>c \<in> set l. \<not> isLineBreak c"
    and brk: "brk \<noteq> []" "\<forall>c \<in> set brk. isLineBreak c"
    and rest: "rest = [] \<or> \<not> isLineBreak (hd rest)"
  shows "splitLines (l @ brk @ rest) = l # splitLines rest"
proof -
  obtain b bs where b: "brk = b # bs" using brk(1) by (cases brk) auto
  with brk(2) have lb: "isLineBreak b" by simp
  have t: "takeWhile (\<lambda>c. \<not> isLineBreak c) (l @ brk @ rest) = l"
    using l lb b by (simp add: takeWhile_append2)
  have d: "dropWhile (\<lambda>c. \<not> isLineBreak c) (l @ brk @ rest) = brk @ rest"
    using l lb b by (simp add: dropWhile_append2)
  have "dropWhile isLineBreak (brk @ rest) = dropWhile isLineBreak rest"
    using brk(2) by (simp add: dropWhile_append2)
  also have "\<dots> = rest" using rest by (rule dropWhile_hd)
  finally have r: "dropWhile isLineBreak (brk @ rest) = rest" .
  from d brk(1) have "dropWhile (\<lambda>c. \<not> isLineBreak c) (l @ brk @ rest) \<noteq> []" by simp
  from splitLines_more [OF this] show ?thesis by (simp only: t d r)
qed

section \<open>Facts about the parser\<close>

lemma getValidChildrenLinks_loop_takeWhile:
  "getValidChildrenLinks_loop c issue acc lines =
     acc @ map (\<lambda>line. projr (getUrlStringForChildrenLine c line issue))
             (takeWhile (\<lambda>line. \<not> isl (getUrlStringForChildrenLine c line issue)) lines)"
proof (induction lines arbitrary: acc)
  case Nil
  show ?case by simp
next
  case (Cons line lines)
  show ?case
  proof (cases "getUrlStringForChildrenLine c line issue")
    case (Inl e)
    then show ?thesis by simp
  next
    case (Inr url)
    then show ?thesis by (simp add: Cons.IH)
  qed
qed

lemma getValidChildrenLinks_takeWhile:
  "getValidChildrenLinks c lines issue =
     map (\<lambda>line. projr (getUrlStringForChildrenLine c line issue))
       (takeWhile (\<lambda>line. \<not> isl (getUrlStringForChildrenLine c line issue)) lines)"
  by (simp add: getValidChildrenLinks_def getValidChildrenLinks_loop_takeWhile)

lemma getValidChildrenLinks_first_fails:
  "lines \<noteq> [] \<Longrightarrow> isl (getUrlStringForChildrenLine c (hd lines) issue) \<Longrightarrow>
   getValidChildrenLinks c lines issue = []"
  by (cases lines) (simp_all add: getValidChildrenLinks_takeWhile)

lemma getChildrenFromTaskList_cases:
  "getChildrenFromTaskList c issue =
     (if taskListLines issue = [] then Inl (Error ''Section missing or has no children'')
      else Inr (convertLinesToChildren c (taskListLines issue) issue ''tasklist''))"
  by (simp add: getChildrenFromTaskList_def Let_def)

lemma getChildren_tasklist:
  "taskListLines issue \<noteq> [] \<Longrightarrow>
   getChildren c issue = Inr (convertLinesToChildren c (taskListLines issue) issue ''tasklist'')"
  by (simp add: getChildren_def getChildrenNew_def getChildrenFromTaskList_cases)

lemma getSectionLines_drop:
  assumes "indexOf text hdr = Some k"
  shows "getSectionLines (drop k text) hdr = getSectionLines text hdr"
  using assms indexOf_drop [OF assms] by (simp add: getSectionLines_def)

lemma getUrlStringForChildrenLine_cong:
  "GithubIssueData.html_url i = GithubIssueData.html_url j \<Longrightarrow>
   getUrlStringForChildrenLine c line i = getUrlStringForChildrenLine c line j"
  by (simp add: getUrlStringForChildrenLine_def)

lemma getValidChildrenLinks_loop_cong:
  "GithubIssueData.html_url i = GithubIssueData.html_url j \<Longrightarrow>
   getValidChildrenLinks_loop c i acc lines = getValidChildrenLinks_loop c j acc lines"
  by (induction lines arbitrary: acc)
     (simp_all add: getUrlStringForChildrenLine_cong [of i j] split: sum.splits)

lemma convertLinesToChildren_cong:
  "GithubIssueData.html_url i = GithubIssueData.html_url j \<Longrightarrow>
   convertLinesToChildren c lines i grp = convertLinesToChildren c lines j grp"
  by (simp add: convertLinesToChildren_def getValidChildrenLinks_def
      getValidChildrenLinks_loop_cong [of i j])

lemma map_throw_Inr:
  "(\<forall>x \<in> set xs. \<not> isl (f x)) \<Longrightarrow> map_throw f xs = Inr (map (\<lambda>x. projr (f x)) xs)"
  by (induction xs) (auto split: sum.splits)

lemma map_throw_Inl:
  "(\<forall>x \<in> set pre. \<not> isl (f x)) \<Longrightarrow> f x = Inl e \<Longrightarrow> map_throw f (pre @ x # rest) = Inl e"
  by (induction pre) (auto split: sum.splits)

lemma map_throw_append:
  "map_throw f (xs @ ys) =
     (case map_throw f xs of
        Inl e \<Rightarrow> Inl e
      | Inr us \<Rightarrow> (case map_throw f ys of Inl e \<Rightarrow> Inl e | Inr vs \<Rightarrow> Inr (us @ vs)))"
  by (induction xs) (auto split: sum.splits)

lemma reduce_throw_items:
  "reduce_throw (\<lambda>a b. case m b of Inl e \<Rightarrow> Inl e | Inr hs \<Rightarrow> Inr (a @ [(t b, hs)])) acc bs =
     (case map_throw (\<lambda>b. case m b of Inl e \<Rightarrow> Inl e | Inr hs \<Rightarrow> Inr (t b, hs)) bs of
        Inl e \<Rightarrow> Inl e
      | Inr items \<Rightarrow> Inr (acc @ items))"
  by (induction bs arbitrary: acc) (auto split: sum.splits)

lemma map_throw_records_of_list:
  "(case map_throw (\<lambda>v. h (snd v)) vs of
      Inl e \<Rightarrow> Inl e
    | Inr hs \<Rightarrow> Inr (map (\<lambda>href. \<lparr>group = t, html_url = href\<rparr>) hs)) =
   map_throw (\<lambda>q. case h (snd q) of
                    Inl e \<Rightarrow> Inl e
                  | Inr u \<Rightarrow> Inr \<lparr>group = fst q, html_url = u\<rparr>)
     (map (\<lambda>v. (t, snd v)) vs)"
  by (induction vs) (auto split: sum.splits)

lemma map_throw_records_of_lists:
  "(case map_throw (\<lambda>b. case map_throw (\<lambda>v. h (snd v)) (as b) of
                           Inl e \<Rightarrow> Inl e
                         | Inr hs \<Rightarrow> Inr (t b, hs)) bs of
      Inl e \<Rightarrow> Inl e
    | Inr items \<Rightarrow>
        Inr (concat (map (\<lambda>item. map (\<lambda>href. \<lparr>group = fst item, html_url = href\<rparr>)
                                  (snd item)) items))) =
   map_throw (\<lambda>q. case h (snd q) of
                    Inl e \<Rightarrow> Inl e
                  | Inr u \<Rightarrow> Inr \<lparr>group = fst q, html_url = u\<rparr>)
     (concat (map (\<lambda>b. map (\<lambda>v. (t b, snd v)) (as b)) bs))"
proof (induction bs)
  case Nil
  show ?case by simp
next
  case (Cons b bs)
  note one = map_throw_records_of_list [where h = h and vs = "as b" and t = "t b"]
  show ?case
    using Cons.IH one
    by (simp add: map_throw_append split: sum.splits) auto
qed

lemma concat_map_filter_if:
  "concat (map f (filter P xs)) = concat (map (\<lambda>x. if P x then f x else []) xs)"
  by (induction xs) simp_all

lemma map_filter_if:
  "map f (filter P xs) = concat (map (\<lambda>x. if P x then [f x] else []) xs)"
  by (induction xs) simp_all

lemma getChildrenFromHtml_map_throw:
  "getChildrenFromHtml c issue =
     map_throw (\<lambda>q. case hrefOf c (snd q) of
                      Inl e \<Rightarrow> Inl e
                    | Inr u \<Rightarrow> Inr \<lparr>group = fst q, html_url = u\<rparr>)
       (concat (map (\<lambda>b. map (\<lambda>v. (listTitle b, snd v)) (querySelectorAll_issueAnchors b))
                  (filter (\<lambda>list. isValidChildren c (listTitle list))
                     (querySelectorAll_ul (parseHTML c (body_html issue))))))"
proof -
  let ?lists = "filter (\<lambda>list. isValidChildren c (listTitle list))
                  (querySelectorAll_ul (parseHTML c (body_html issue)))"
  let ?items = "map_throw (\<lambda>b. case map_throw (\<lambda>v. hrefOf c (snd v))
                                        (querySelectorAll_issueAnchors b) of
                                 Inl e \<Rightarrow> Inl e
                               | Inr hs \<Rightarrow> Inr (listTitle b, hs)) ?lists"
  have "getChildrenFromHtml c issue =
          (case ?items of
             Inl e \<Rightarrow> Inl e
           | Inr items \<Rightarrow>
               Inr (concat (map (\<lambda>item. map (\<lambda>u. \<lparr>group = fst item, html_url = u\<rparr>)
                                         (snd item)) items)))"
    unfolding getChildrenFromHtml_def Let_def reduce_throw_items
    by (cases ?items) simp_all
  also have "\<dots> =
     map_throw (\<lambda>q. case hrefOf c (snd q) of
                      Inl e \<Rightarrow> Inl e
                    | Inr u \<Rightarrow> Inr \<lparr>group = fst q, html_url = u\<rparr>)
       (concat (map (\<lambda>b. map (\<lambda>v. (listTitle b, snd v)) (querySelectorAll_issueAnchors b))
                  ?lists))"
    by (rule map_throw_records_of_lists)
  finally show ?thesis .
qed

lemma nested_comprehension:
  "[f ul a. ul \<leftarrow> xs, A ul, B ul, a \<leftarrow> ys ul, C a] =
   concat (map (\<lambda>b. map (f b) (filter C (ys b))) (filter B (filter A xs)))"
  by (induction xs) (simp_all add: map_filter_if [symmetric])

lemma qualifying_anchors_eq:
  "[(map_option (\<lambda>p. trim (textContent p)) (fst ul), snd a).
      ul \<leftarrow> elementsOf None doc,
      tagName (snd ul) = ''ul'',
      valid (map_option (\<lambda>p. trim (textContent p)) (fst ul)),
      a \<leftarrow> elementsOf None (childNodes (snd ul)),
      tagName (snd a) = ''a''
      \<and> map_of (attributes (snd a)) ''href'' \<noteq> None
      \<and> (case map_of (attributes (snd a)) ''data-hovercard-type'' of
            None \<Rightarrow> False
          | Some v \<Rightarrow> includes_str v ''issue'')] =
   concat (map (\<lambda>b. map (\<lambda>v. (listTitle b, snd v)) (querySelectorAll_issueAnchors b))
             (filter (\<lambda>list. valid (listTitle list)) (querySelectorAll_ul doc)))"
  unfolding querySelectorAll_ul_def querySelectorAll_issueAnchors_def listTitle_def
      previousElementSibling_def isIssueAnchor_def
  by (rule nested_comprehension)

lemma isShortRef_iff:
  "isShortRef line \<longleftrightarrow>
     (\<exists>ds. line = CHR ''#'' # ds \<and> ds \<noteq> [] \<and> set ds \<subseteq> set ''0123456789'')"
proof (cases line)
  case Nil
  then show ?thesis by simp
next
  case (Cons c ds)
  have "list_all isDigit ds \<longleftrightarrow> set ds \<subseteq> set ''0123456789''"
    by (simp only: list_all_iff subset_eq Ball_def isDigit_def)
  with Cons show ?thesis by (simp only: isShortRef.simps list.inject) blast
qed

section \<open>Claims\<close>

text \<open>
  Claim C1, as amended. When the body yields at least one surviving tasklist line,
  whatever \<^verbatim>\<open>children:\<close> list it also holds, \<open>getChildren\<close> returns the result of the
  tasklist strategy: one record of group \<^verbatim>\<open>tasklist\<close> for each surviving line that follows
  the first tasklist header, in line order, up to the first line that does not resolve. No
  record has another group, and the text before the header contributes nothing: the body
  cut at the header gives the same records.
\<close>

theorem tasklist_precedence:
  assumes "taskListLines issue \<noteq> []"
  shows "getChildren c issue =
           Inr (map (\<lambda>line. \<lparr>group = Some ''tasklist'',
                              html_url = projr (getUrlStringForChildrenLine c line issue)\<rparr>)
                  (takeWhile (\<lambda>line. \<not> isl (getUrlStringForChildrenLine c line issue))
                     (taskListLines issue)))
         \<and> (\<forall>r \<in> set (projr (getChildren c issue)). group r = Some ''tasklist'')
         \<and> (\<forall>k. indexOf (body issue) ''```[tasklist]'' = Some k \<longrightarrow>
                getChildren c (issue\<lparr>body := drop k (body issue)\<rparr>) = getChildren c issue)"
proof (intro conjI allI impI)
  have g: "getChildren c issue
           = Inr (convertLinesToChildren c (taskListLines issue) issue ''tasklist'')"
    using assms by (rule getChildren_tasklist)
  then show "getChildren c issue =
           Inr (map (\<lambda>line. \<lparr>group = Some ''tasklist'',
                              html_url = projr (getUrlStringForChildrenLine c line issue)\<rparr>)
                  (takeWhile (\<lambda>line. \<not> isl (getUrlStringForChildrenLine c line issue))
                     (taskListLines issue)))"
    by (simp add: convertLinesToChildren_def getValidChildrenLinks_takeWhile comp_def)
  from g show "\<forall>r \<in> set (projr (getChildren c issue)). group r = Some ''tasklist''"
    by (auto simp: convertLinesToChildren_def)
next
  fix k
  assume k: "indexOf (body issue) ''```[tasklist]'' = Some k"
  let ?cut = "issue\<lparr>body := drop k (body issue)\<rparr>"
  have t: "taskListLines ?cut = taskListLines issue"
    using getSectionLines_drop [OF k] by (simp add: taskListLines_def)
  have "getChildren c ?cut
        = Inr (convertLinesToChildren c (taskListLines ?cut) ?cut ''tasklist'')"
    using assms t by (intro getChildren_tasklist) simp
  also have "\<dots> = Inr (convertLinesToChildren c (taskListLines issue) issue ''tasklist'')"
    using t convertLinesToChildren_cong [of ?cut issue] by simp
  also have "\<dots> = getChildren c issue"
    using assms by (rule getChildren_tasklist [symmetric])
  finally show "getChildren c ?cut = getChildren c issue" .
qed

theorem tasklist_precedence_witness:
  "taskListLines issue_children_then_tasklist \<noteq> []
   \<and> childrenLines issue_children_then_tasklist \<noteq> []
   \<and> indexOf (body issue_children_then_tasklist) ''```[tasklist]'' = Some 15
   \<and> getChildren sample issue_children_then_tasklist =
       Inr [\<lparr>group = Some ''tasklist'', html_url = ''https://github.com/o/r/issues/1''\<rparr>]
   \<and> getChildren sample
         (issue_children_then_tasklist\<lparr>body := drop 15 (body issue_children_then_tasklist)\<rparr>) =
       Inr [\<lparr>group = Some ''tasklist'', html_url = ''https://github.com/o/r/issues/1''\<rparr>]"
proof -
  have h: "taskListLines issue_children_then_tasklist \<noteq> []" by code_simp
  have c: "childrenLines issue_children_then_tasklist \<noteq> []" by code_simp
  have k: "indexOf (body issue_children_then_tasklist) ''```[tasklist]'' = Some 15" by code_simp
  have v: "map (\<lambda>line. \<lparr>group = Some ''tasklist'',
                         html_url = projr (getUrlStringForChildrenLine sample line
                                             issue_children_then_tasklist)\<rparr>)
             (takeWhile (\<lambda>line. \<not> isl (getUrlStringForChildrenLine sample line
                                           issue_children_then_tasklist))
                (taskListLines issue_children_then_tasklist)) =
           [\<lparr>group = Some ''tasklist'', html_url = ''https://github.com/o/r/issues/1''\<rparr>]"
    by code_simp
  note t = tasklist_precedence [OF h, of sample]
  from t v have g: "getChildren sample issue_children_then_tasklist =
       Inr [\<lparr>group = Some ''tasklist'', html_url = ''https://github.com/o/r/issues/1''\<rparr>]"
    by simp
  from t k have "getChildren sample
         (issue_children_then_tasklist\<lparr>body := drop 15 (body issue_children_then_tasklist)\<rparr>) =
       getChildren sample issue_children_then_tasklist"
    by blast
  with g h c k show ?thesis by simp
qed

text \<open>
  Claim C1 as stated fails: in \<open>issue_tasklist_then_children\<close> the line \<^verbatim>\<open>- #2\<close> stands in
  the \<^verbatim>\<open>children:\<close> list, after the closing fence of the tasklist block, and it
  contributes the second record; without the \<^verbatim>\<open>children:\<close> list the result has one
  record.
\<close>

theorem tasklist_precedence_counterexample:
  "taskListLines issue_tasklist_then_children = [''#1'', ''#2'']
   \<and> childrenLines issue_tasklist_then_children = [''#2'']
   \<and> getChildren sample issue_tasklist_then_children =
       Inr [\<lparr>group = Some ''tasklist'', html_url = ''https://github.com/o/r/issues/1''\<rparr>,
            \<lparr>group = Some ''tasklist'', html_url = ''https://github.com/o/r/issues/2''\<rparr>]
   \<and> getChildren sample issue_tasklist_only =
       Inr [\<lparr>group = Some ''tasklist'', html_url = ''https://github.com/o/r/issues/1''\<rparr>]"
  by code_simp

text \<open>
  Claim C2. \<open>getValidChildrenLinks\<close> returns the URLs of the longest prefix of the lines
  that all resolve, in line order. It stops at the first line that fails: whatever follows
  that line does not change the result. A line resolves exactly when, after the
  short-reference expansion, it validates as a URL whose host contains \<^verbatim>\<open>github.com\<close>.
\<close>

theorem resolveSequence_prefix:
  "getValidChildrenLinks c lines issue =
     map (\<lambda>line. projr (getUrlStringForChildrenLine c line issue))
       (takeWhile (\<lambda>line. \<not> isl (getUrlStringForChildrenLine c line issue)) lines)
   \<and> (\<forall>pre bad rest.
        (\<forall>line \<in> set pre. \<not> isl (getUrlStringForChildrenLine c line issue))
        \<and> isl (getUrlStringForChildrenLine c bad issue)
        \<longrightarrow> getValidChildrenLinks c (pre @ bad # rest) issue =
              map (\<lambda>line. projr (getUrlStringForChildrenLine c line issue)) pre)
   \<and> (\<forall>line u. getUrlStringForChildrenLine c line issue = Inr u \<longrightarrow>
        (\<exists>line' url. getValidUrlFromInput c line' = Inr url
           \<and> includes_str (host url) ''github.com'' \<and> u = href url
           \<and> (line' = line \<or> isShortRef line)))"
proof (intro conjI allI impI)
  show "getValidChildrenLinks c lines issue =
     map (\<lambda>line. projr (getUrlStringForChildrenLine c line issue))
       (takeWhile (\<lambda>line. \<not> isl (getUrlStringForChildrenLine c line issue)) lines)"
    by (rule getValidChildrenLinks_takeWhile)
next
  fix pre bad rest
  assume "(\<forall>line \<in> set pre. \<not> isl (getUrlStringForChildrenLine c line issue))
        \<and> isl (getUrlStringForChildrenLine c bad issue)"
  then show "getValidChildrenLinks c (pre @ bad # rest) issue =
              map (\<lambda>line. projr (getUrlStringForChildrenLine c line issue)) pre"
    by (simp add: getValidChildrenLinks_takeWhile takeWhile_tail)
next
  fix line u
  assume "getUrlStringForChildrenLine c line issue = Inr u"
  then show "\<exists>line' url. getValidUrlFromInput c line' = Inr url
           \<and> includes_str (host url) ''github.com'' \<and> u = href url
           \<and> (line' = line \<or> isShortRef line)"
    by (auto simp: getUrlStringForChildrenLine_def split: sum.splits if_splits)
qed

theorem resolveSequence_prefix_witness:
  "\<not> isl (getUrlStringForChildrenLine sample ''https://github.com/o/r/issues/5''
            issue_html_only)
   \<and> \<not> isl (getUrlStringForChildrenLine sample ''#7'' issue_html_only)
   \<and> isl (getUrlStringForChildrenLine sample ''https://unrelated.example/x'' issue_html_only)
   \<and> \<not> isl (getUrlStringForChildrenLine sample ''#8'' issue_html_only)
   \<and> getValidChildrenLinks sample
        [''https://github.com/o/r/issues/5'', ''#7'', ''https://unrelated.example/x'', ''#8'']
        issue_html_only =
       [''https://github.com/o/r/issues/5'', ''https://github.com/o/r/issues/7'']"
proof -
  have a: "\<not> isl (getUrlStringForChildrenLine sample ''https://github.com/o/r/issues/5''
            issue_html_only)" by code_simp
  have b: "\<not> isl (getUrlStringForChildrenLine sample ''#7'' issue_html_only)" by code_simp
  have bad: "isl (getUrlStringForChildrenLine sample ''https://unrelated.example/x''
            issue_html_only)" by code_simp
  have d: "\<not> isl (getUrlStringForChildrenLine sample ''#8'' issue_html_only)" by code_simp
  have v: "map (\<lambda>line. projr (getUrlStringForChildrenLine sample line issue_html_only))
             [''https://github.com/o/r/issues/5'', ''#7''] =
           [''https://github.com/o/r/issues/5'', ''https://github.com/o/r/issues/7'']"
    by code_simp
  have p: "\<forall>line \<in> set [''https://github.com/o/r/issues/5'', ''#7''].
             \<not> isl (getUrlStringForChildrenLine sample line issue_html_only)"
    using a b by simp
  from resolveSequence_prefix [of sample _ issue_html_only] p bad
  have "getValidChildrenLinks sample
          ([''https://github.com/o/r/issues/5'', ''#7'']
             @ ''https://unrelated.example/x'' # [''#8'']) issue_html_only =
        map (\<lambda>line. projr (getUrlStringForChildrenLine sample line issue_html_only))
          [''https://github.com/o/r/issues/5'', ''#7'']"
    by blast
  with v a b bad d show ?thesis by simp
qed

text \<open>
  Claim C3, as amended. \<open>getDueDate\<close> always returns: with the scanned string and the
  collector unchanged when the scanner succeeds; with the empty string when it fails, and
  then one entry (\<^verbatim>\<open>#eta\<close>, \<^verbatim>\<open>ETA not found\<close>, \<^verbatim>\<open>ETA not found in issue body\<close>) is appended
  exactly when \<open>html_url\<close> is not \<^verbatim>\<open>null\<close> and \<open>root_issue\<close> is not \<^verbatim>\<open>true\<close>; an empty
  \<open>html_url\<close> string passes that test.
\<close>

theorem getDueDate_total:
  "getDueDate c issue errorManager =
     (case getEtaDate c (issueText c issue) of
        Inr s \<Rightarrow> (\<lparr>eta = s\<rparr>, errorManager)
      | Inl e \<Rightarrow>
          (\<lparr>eta = []\<rparr>,
           if GithubIssueData.html_url issue \<noteq> None \<and> root_issue issue \<noteq> Some True
           then errorManager @ [etaNotFound issue]
           else errorManager))"
  by (simp add: getDueDate_def addError_def etaNotFound_def split: sum.splits)

theorem getDueDate_total_witness:
  "isl (getEtaDate sample (issueText sample issue_empty_url))
   \<and> getDueDate sample issue_empty_url [] = (\<lparr>eta = []\<rparr>, [etaNotFound issue_empty_url])
   \<and> getDueDate sample (issue_empty_url\<lparr>GithubIssueData.html_url := None\<rparr>) []
       = (\<lparr>eta = []\<rparr>, [])
   \<and> getDueDate sample (issue_empty_url\<lparr>root_issue := Some True\<rparr>) [] = (\<lparr>eta = []\<rparr>, [])"
proof -
  have f: "getEtaDate sample (issueText sample issue_empty_url) = Inl (Error ''No ETA found'')"
    by code_simp
  have f1: "getEtaDate sample
              (issueText sample (issue_empty_url\<lparr>GithubIssueData.html_url := None\<rparr>))
            = Inl (Error ''No ETA found'')"
    by code_simp
  have f2: "getEtaDate sample (issueText sample (issue_empty_url\<lparr>root_issue := Some True\<rparr>))
            = Inl (Error ''No ETA found'')"
    by code_simp
  have u: "GithubIssueData.html_url issue_empty_url = Some []"
    and r: "root_issue issue_empty_url = Some False"
    by (simp_all add: issue_empty_url_def)
  from getDueDate_total [of sample issue_empty_url "[]"] f u r
  have a: "getDueDate sample issue_empty_url [] = (\<lparr>eta = []\<rparr>, [etaNotFound issue_empty_url])"
    by simp
  from getDueDate_total [of sample "issue_empty_url\<lparr>GithubIssueData.html_url := None\<rparr>" "[]"] f1
  have b: "getDueDate sample (issue_empty_url\<lparr>GithubIssueData.html_url := None\<rparr>) []
       = (\<lparr>eta = []\<rparr>, [])"
    by simp
  from getDueDate_total [of sample "issue_empty_url\<lparr>root_issue := Some True\<rparr>" "[]"] f2
  have c: "getDueDate sample (issue_empty_url\<lparr>root_issue := Some True\<rparr>) [] = (\<lparr>eta = []\<rparr>, [])"
    by simp
  from f a b c show ?thesis by simp
qed

text \<open>
  Claim C3 as stated fails: the URL of \<open>issue_empty_url\<close> is the empty string, the scanner
  fails on its body, and an entry is appended.
\<close>

theorem getDueDate_empty_url_counterexample:
  "GithubIssueData.html_url issue_empty_url = Some []
   \<and> root_issue issue_empty_url = Some False
   \<and> isl (getEtaDate sample (issueText sample issue_empty_url))
   \<and> snd (getDueDate sample issue_empty_url []) = [etaNotFound issue_empty_url]"
  by code_simp

text \<open>
  Claim C4. When the tasklist strategy fails and the \<^verbatim>\<open>children:\<close> section yields a
  surviving line, a surviving line that starts with \<^verbatim>\<open><\<close> makes \<open>getChildrenNew\<close> fail with
  \<^verbatim>\<open>HTML tags found in body_text\<close>, and \<open>getChildren\<close> returns what the HTML strategy
  gives.
\<close>

theorem guard_falls_back:
  assumes "isl (getChildrenFromTaskList c issue)"
    and "childrenLines issue \<noteq> []"
    and "\<exists>line \<in> set (childrenLines issue). startsWith line ''<''"
  shows "getChildrenNew c issue = Inl (Error ''HTML tags found in body_text'')
         \<and> getChildren c issue = getChildrenFromHtml c issue"
  using assms
  by (auto simp: getChildren_def getChildrenNew_def Let_def list_ex_iff split: sum.splits)

theorem guard_falls_back_witness:
  "isl (getChildrenFromTaskList sample issue_html_in_body)
   \<and> childrenLines issue_html_in_body = [''<ul>'', ''<li>x</li>'', ''</ul>'']
   \<and> startsWith ''<ul>'' ''<''
   \<and> getChildrenNew sample issue_html_in_body = Inl (Error ''HTML tags found in body_text'')
   \<and> getChildren sample issue_html_in_body =
       Inr [\<lparr>group = Some ''children:'', html_url = ''https://github.com/o/r/issues/5''\<rparr>,
            \<lparr>group = Some ''children:'', html_url = ''https://example.org/x''\<rparr>]"
proof -
  have t: "isl (getChildrenFromTaskList sample issue_html_in_body)" by code_simp
  have l: "childrenLines issue_html_in_body = [''<ul>'', ''<li>x</li>'', ''</ul>'']"
    by code_simp
  have s: "startsWith ''<ul>'' ''<''" by code_simp
  have h: "getChildrenFromHtml sample issue_html_in_body =
       Inr [\<lparr>group = Some ''children:'', html_url = ''https://github.com/o/r/issues/5''\<rparr>,
            \<lparr>group = Some ''children:'', html_url = ''https://example.org/x''\<rparr>]"
    by code_simp
  have ne: "childrenLines issue_html_in_body \<noteq> []" using l by simp
  have ex: "\<exists>line \<in> set (childrenLines issue_html_in_body). startsWith line ''<''"
    using l s by simp
  from guard_falls_back [OF t ne ex] h t l s show ?thesis by simp
qed

text \<open>
  Claim C5, as amended. A line is a short reference exactly when it is a hash mark followed
  by one or more digits and nothing else. For such a line \<^verbatim>\<open>paramsFromUrl\<close> is called on the
  issue's \<open>html_url\<close>: when it returns an owner and a repository, the line is rewritten to
  \<^verbatim>\<open>owner/repo#N\<close> before validation; when it throws, resolution fails with its error and
  nothing is validated. A line of any other shape is validated as it is.
\<close>

theorem short_reference_expansion:
  "(isShortRef line \<longleftrightarrow>
      (\<exists>ds. line = CHR ''#'' # ds \<and> ds \<noteq> [] \<and> set ds \<subseteq> set ''0123456789''))
   \<and> (isShortRef line \<and> paramsFromUrl c (GithubIssueData.html_url issue) = Inr (owner, repo)
      \<longrightarrow> getUrlStringForChildrenLine c line issue
            = validatedHref c (owner @ ''/'' @ repo @ line))
   \<and> (isShortRef line \<and> paramsFromUrl c (GithubIssueData.html_url issue) = Inl e
      \<longrightarrow> getUrlStringForChildrenLine c line issue = Inl e)
   \<and> (\<not> isShortRef line
      \<longrightarrow> getUrlStringForChildrenLine c line issue = validatedHref c line)"
proof (intro conjI impI)
  show "isShortRef line \<longleftrightarrow>
      (\<exists>ds. line = CHR ''#'' # ds \<and> ds \<noteq> [] \<and> set ds \<subseteq> set ''0123456789'')"
    by (rule isShortRef_iff)
next
  assume "isShortRef line \<and> paramsFromUrl c (GithubIssueData.html_url issue) = Inr (owner, repo)"
  then show "getUrlStringForChildrenLine c line issue
            = validatedHref c (owner @ ''/'' @ repo @ line)"
    by (simp add: getUrlStringForChildrenLine_def validatedHref_def split: sum.splits)
next
  assume "isShortRef line \<and> paramsFromUrl c (GithubIssueData.html_url issue) = Inl e"
  then show "getUrlStringForChildrenLine c line issue = Inl e"
    by (simp add: getUrlStringForChildrenLine_def)
next
  assume "\<not> isShortRef line"
  then show "getUrlStringForChildrenLine c line issue = validatedHref c line"
    by (simp add: getUrlStringForChildrenLine_def validatedHref_def split: sum.splits)
qed

theorem short_reference_expansion_witness:
  "isShortRef ''#123''
   \<and> paramsFromUrl sample (GithubIssueData.html_url issue_html_only) = Inr (''o'', ''r'')
   \<and> getUrlStringForChildrenLine sample ''#123'' issue_html_only
       = Inr ''https://github.com/o/r/issues/123''
   \<and> paramsFromUrl sample (GithubIssueData.html_url issue_empty_url)
       = Inl (Error ''Invalid URL: '')
   \<and> getUrlStringForChildrenLine sample ''#123'' issue_empty_url = Inl (Error ''Invalid URL: '')
   \<and> \<not> isShortRef ''o/r#123''
   \<and> getUrlStringForChildrenLine sample ''o/r#123'' issue_html_only
       = Inr ''https://github.com/o/r/issues/123''
   \<and> \<not> isShortRef ''#12a''
   \<and> getUrlStringForChildrenLine sample ''#12a'' issue_html_only = Inl (Error ''Invalid URL'')"
proof -
  have a: "isShortRef ''#123''" by code_simp
  have p: "paramsFromUrl sample (GithubIssueData.html_url issue_html_only) = Inr (''o'', ''r'')"
    by code_simp
  have v: "validatedHref sample (''o'' @ ''/'' @ ''r'' @ ''#123'')
           = Inr ''https://github.com/o/r/issues/123''"
    by code_simp
  have f: "paramsFromUrl sample (GithubIssueData.html_url issue_empty_url)
           = Inl (Error ''Invalid URL: '')"
    by code_simp
  have b: "\<not> isShortRef ''o/r#123''" by code_simp
  have w: "validatedHref sample ''o/r#123'' = Inr ''https://github.com/o/r/issues/123''"
    by code_simp
  have d: "\<not> isShortRef ''#12a''" by code_simp
  have x: "validatedHref sample ''#12a'' = Inl (Error ''Invalid URL'')" by code_simp
  from short_reference_expansion [of "''#123''" sample issue_html_only "''o''" "''r''"] a p v
  have 1: "getUrlStringForChildrenLine sample ''#123'' issue_html_only
       = Inr ''https://github.com/o/r/issues/123''"
    by simp
  from short_reference_expansion
         [of "''#123''" sample issue_empty_url _ _ "Error ''Invalid URL: ''"] a f
  have 2: "getUrlStringForChildrenLine sample ''#123'' issue_empty_url
       = Inl (Error ''Invalid URL: '')"
    by blast
  from short_reference_expansion [of "''o/r#123''" sample issue_html_only] b w
  have 3: "getUrlStringForChildrenLine sample ''o/r#123'' issue_html_only
       = Inr ''https://github.com/o/r/issues/123''"
    by simp
  from short_reference_expansion [of "''#12a''" sample issue_html_only] d x
  have 4: "getUrlStringForChildrenLine sample ''#12a'' issue_html_only = Inl (Error ''Invalid URL'')"
    by simp
  from a p 1 f 2 b 3 d 4 show ?thesis by blast
qed

text \<open>
  Claim C5 as stated fails: \<^verbatim>\<open>#7\<close> is a short reference, the \<open>html_url\<close> of
  \<open>issue_empty_url\<close> is the empty string, \<^verbatim>\<open>paramsFromUrl\<close> throws on it, and the line is
  neither rewritten nor validated: resolution fails with the error of \<^verbatim>\<open>paramsFromUrl\<close>,
  which is not the error validation gives for the line, and the child is dropped.
\<close>

theorem short_reference_expansion_counterexample:
  "isShortRef ''#7''
   \<and> GithubIssueData.html_url issue_empty_url = Some []
   \<and> paramsFromUrl sample (Some []) = Inl (Error ''Invalid URL: '')
   \<and> getUrlStringForChildrenLine sample ''#7'' issue_empty_url = Inl (Error ''Invalid URL: '')
   \<and> validatedHref sample ''#7'' = Inl (Error ''Invalid URL'')
   \<and> getValidChildrenLinks sample [''#7''] issue_empty_url = []
   \<and> getValidChildrenLinks sample [''#7''] issue_html_only = [''https://github.com/o/r/issues/7'']"
  by code_simp

text \<open>
  Claim C7, as amended. The HTML strategy reads each anchor with an \<^verbatim>\<open>href\<close> attribute and
  a \<^verbatim>\<open>data-hovercard-type\<close> attribute containing \<^verbatim>\<open>issue\<close>, below each \<^verbatim>\<open>ul\<close> whose title
  (the trimmed text of its previous element sibling) \<^verbatim>\<open>isValidChildren\<close> accepts, list by
  list in document order and the anchors of a list in document order. When the \<^verbatim>\<open>href\<close>
  getter returns for all of them, the result is one record for each: its \<open>html_url\<close> is the
  value the getter returned, as it is, with no validation and no host check, and its group
  is the title of the list. When a getter throws, the strategy gives no records: it fails
  with the error of the first anchor whose getter throws, and \<open>getChildren\<close>, which reaches
  this strategy whenever \<open>getChildrenNew\<close> fails, passes the failure on.
\<close>

theorem legacy_html_records:
  "(let quals =
      [(map_option (\<lambda>p. trim (textContent p)) (fst ul), snd a).
         ul \<leftarrow> elementsOf None (parseHTML c (body_html issue)),
         tagName (snd ul) = ''ul'',
         isValidChildren c (map_option (\<lambda>p. trim (textContent p)) (fst ul)),
         a \<leftarrow> elementsOf None (childNodes (snd ul)),
         tagName (snd a) = ''a''
         \<and> map_of (attributes (snd a)) ''href'' \<noteq> None
         \<and> (case map_of (attributes (snd a)) ''data-hovercard-type'' of
               None \<Rightarrow> False
             | Some v \<Rightarrow> includes_str v ''issue'')]
    in ((\<forall>q \<in> set quals. \<not> isl (hrefOf c (snd q)))
        \<longrightarrow> getChildrenFromHtml c issue =
              Inr (map (\<lambda>q. \<lparr>group = fst q, html_url = projr (hrefOf c (snd q))\<rparr>) quals))
     \<and> (\<forall>pre q rest e.
           quals = pre @ q # rest \<and> (\<forall>p \<in> set pre. \<not> isl (hrefOf c (snd p)))
           \<and> hrefOf c (snd q) = Inl e
           \<longrightarrow> getChildrenFromHtml c issue = Inl e))
   \<and> (isl (getChildrenNew c issue) \<longrightarrow> getChildren c issue = getChildrenFromHtml c issue)"
proof -
  define quals where "quals =
      [(map_option (\<lambda>p. trim (textContent p)) (fst ul), snd a).
         ul \<leftarrow> elementsOf None (parseHTML c (body_html issue)),
         tagName (snd ul) = ''ul'',
         isValidChildren c (map_option (\<lambda>p. trim (textContent p)) (fst ul)),
         a \<leftarrow> elementsOf None (childNodes (snd ul)),
         tagName (snd a) = ''a''
         \<and> map_of (attributes (snd a)) ''href'' \<noteq> None
         \<and> (case map_of (attributes (snd a)) ''data-hovercard-type'' of
               None \<Rightarrow> False
             | Some v \<Rightarrow> includes_str v ''issue'')]"
  let ?rec_of = "\<lambda>q. case hrefOf c (snd q) of
                        Inl e \<Rightarrow> Inl e
                      | Inr u \<Rightarrow> Inr \<lparr>group = fst q, html_url = u\<rparr>"
  have g: "getChildrenFromHtml c issue = map_throw ?rec_of quals"
    unfolding quals_def qualifying_anchors_eq by (rule getChildrenFromHtml_map_throw)
  have all: "getChildrenFromHtml c issue =
              Inr (map (\<lambda>q. \<lparr>group = fst q, html_url = projr (hrefOf c (snd q))\<rparr>) quals)"
    if ok: "\<forall>q \<in> set quals. \<not> isl (hrefOf c (snd q))"
  proof -
    from ok have "\<forall>q \<in> set quals. \<not> isl (?rec_of q)"
      by (auto split: sum.splits)
    then have "map_throw ?rec_of quals = Inr (map (\<lambda>q. projr (?rec_of q)) quals)"
      by (rule map_throw_Inr)
    also have "map (\<lambda>q. projr (?rec_of q)) quals =
                 map (\<lambda>q. \<lparr>group = fst q, html_url = projr (hrefOf c (snd q))\<rparr>) quals"
      using ok by (intro map_cong refl) (auto split: sum.splits)
    finally show ?thesis using g by simp
  qed
  have first: "getChildrenFromHtml c issue = Inl e"
    if "quals = pre @ q # rest \<and> (\<forall>p \<in> set pre. \<not> isl (hrefOf c (snd p)))
           \<and> hrefOf c (snd q) = Inl e" for pre q rest e
  proof -
    from that have "\<forall>p \<in> set pre. \<not> isl (?rec_of p)"
      by (auto split: sum.splits)
    moreover from that have "?rec_of q = Inl e" by simp
    ultimately have "map_throw ?rec_of (pre @ q # rest) = Inl e"
      by (rule map_throw_Inl)
    with that g show ?thesis by simp
  qed
  have fallback: "isl (getChildrenNew c issue) \<longrightarrow> getChildren c issue = getChildrenFromHtml c issue"
    by (auto simp: getChildren_def split: sum.splits)
  from all first fallback show ?thesis
    unfolding Let_def quals_def [symmetric] by blast
qed

theorem legacy_html_records_witness:
  "getChildrenFromHtml sample issue_html_only =
     Inr [\<lparr>group = Some ''children:'', html_url = ''https://github.com/o/r/issues/5''\<rparr>,
          \<lparr>group = Some ''children:'', html_url = ''https://example.org/x''\<rparr>]
   \<and> isl (getChildrenNew sample issue_html_only)
   \<and> getChildren sample issue_html_only =
     Inr [\<lparr>group = Some ''children:'', html_url = ''https://github.com/o/r/issues/5''\<rparr>,
          \<lparr>group = Some ''children:'', html_url = ''https://example.org/x''\<rparr>]
   \<and> hrefOf sample (Element ''a'' [(''href'', ''https://github.com/o/r/issues?q=50%''), (''data-hovercard-type'', ''issue'')] [Text ''half'']) = Inl (Error ''URI malformed'')
   \<and> getChildrenFromHtml sample issue_bad_href = Inl (Error ''URI malformed'')"
proof -
  let ?good = "[(Some ''children:'', Element ''a'' [(''href'', ''https://github.com/o/r/issues/5''), (''data-hovercard-type'', ''issue'')] [Text ''o/r#5'']), (Some ''children:'', Element ''a'' [(''href'', ''https://example.org/x''), (''data-hovercard-type'', ''issue'')] [Text ''x''])]"
  have qg: "[(map_option (\<lambda>p. trim (textContent p)) (fst ul), snd a).
         ul \<leftarrow> elementsOf None (parseHTML sample (body_html issue_html_only)),
         tagName (snd ul) = ''ul'',
         isValidChildren sample (map_option (\<lambda>p. trim (textContent p)) (fst ul)),
         a \<leftarrow> elementsOf None (childNodes (snd ul)),
         tagName (snd a) = ''a''
         \<and> map_of (attributes (snd a)) ''href'' \<noteq> None
         \<and> (case map_of (attributes (snd a)) ''data-hovercard-type'' of
               None \<Rightarrow> False
             | Some v \<Rightarrow> includes_str v ''issue'')] = ?good"
    by code_simp
  have okg: "\<forall>q \<in> set ?good. \<not> isl (hrefOf sample (snd q))"
    by code_simp
  have vg: "map (\<lambda>q. \<lparr>group = fst q, html_url = projr (hrefOf sample (snd q))\<rparr>) ?good =
            [\<lparr>group = Some ''children:'', html_url = ''https://github.com/o/r/issues/5''\<rparr>,
             \<lparr>group = Some ''children:'', html_url = ''https://example.org/x''\<rparr>]"
    by code_simp
  have n: "isl (getChildrenNew sample issue_html_only)"
    by code_simp
  note tg = legacy_html_records [of sample issue_html_only, unfolded Let_def qg]
  from tg okg have "getChildrenFromHtml sample issue_html_only =
      Inr (map (\<lambda>q. \<lparr>group = fst q, html_url = projr (hrefOf sample (snd q))\<rparr>) ?good)"
    by blast
  with vg have 1: "getChildrenFromHtml sample issue_html_only =
     Inr [\<lparr>group = Some ''children:'', html_url = ''https://github.com/o/r/issues/5''\<rparr>,
          \<lparr>group = Some ''children:'', html_url = ''https://example.org/x''\<rparr>]"
    by simp
  from tg n have "getChildren sample issue_html_only = getChildrenFromHtml sample issue_html_only"
    by blast
  with 1 have 2: "getChildren sample issue_html_only =
     Inr [\<lparr>group = Some ''children:'', html_url = ''https://github.com/o/r/issues/5''\<rparr>,
          \<lparr>group = Some ''children:'', html_url = ''https://example.org/x''\<rparr>]"
    by simp
  let ?pre = "[(Some ''children:'', Element ''a'' [(''href'', ''https://github.com/o/r/issues/5''), (''data-hovercard-type'', ''issue'')] [Text ''o/r#5''])]"
  let ?q = "(Some ''children:'', Element ''a'' [(''href'', ''https://github.com/o/r/issues?q=50%''), (''data-hovercard-type'', ''issue'')] [Text ''half''])"
  let ?rest = "[(Some ''children:'', Element ''a'' [(''href'', ''https://github.com/o/r/issues/7''), (''data-hovercard-type'', ''issue'')] [Text ''o/r#7''])]"
  have qb: "[(map_option (\<lambda>p. trim (textContent p)) (fst ul), snd a).
         ul \<leftarrow> elementsOf None (parseHTML sample (body_html issue_bad_href)),
         tagName (snd ul) = ''ul'',
         isValidChildren sample (map_option (\<lambda>p. trim (textContent p)) (fst ul)),
         a \<leftarrow> elementsOf None (childNodes (snd ul)),
         tagName (snd a) = ''a''
         \<and> map_of (attributes (snd a)) ''href'' \<noteq> None
         \<and> (case map_of (attributes (snd a)) ''data-hovercard-type'' of
               None \<Rightarrow> False
             | Some v \<Rightarrow> includes_str v ''issue'')] = ?pre @ ?q # ?rest"
    by code_simp
  have okb: "\<forall>p \<in> set ?pre. \<not> isl (hrefOf sample (snd p))"
    by code_simp
  have e: "hrefOf sample (snd ?q) = Inl (Error ''URI malformed'')"
    by code_simp
  note tb = legacy_html_records [of sample issue_bad_href, unfolded Let_def]
  from tb qb okb e have 3: "getChildrenFromHtml sample issue_bad_href = Inl (Error ''URI malformed'')"
    by blast
  from e have 4: "hrefOf sample (Element ''a'' [(''href'', ''https://github.com/o/r/issues?q=50%''), (''data-hovercard-type'', ''issue'')] [Text ''half'']) = Inl (Error ''URI malformed'')"
    by simp
  from 1 n 2 4 3 show ?thesis by blast
qed

text \<open>
  Claim C7 as stated fails: the rendered body of \<open>issue_bad_href\<close> has one list under the
  heading \<^verbatim>\<open>children:\<close> with three anchors that carry both attributes; the \<^verbatim>\<open>href\<close> of the
  second one ends in a lone \<^verbatim>\<open>%\<close>, its getter throws, and the strategy returns no record
  for any of the three.
\<close>

theorem legacy_html_records_counterexample:
  "map (\<lambda>ul. (listTitle ul, length (querySelectorAll_issueAnchors ul)))
     (querySelectorAll_ul (parseHTML sample (body_html issue_bad_href)))
     = [(Some ''children:'', 3)]
   \<and> isValidChildren sample (Some ''children:'')
   \<and> getChildrenFromHtml sample issue_bad_href = Inl (Error ''URI malformed'')
   \<and> getChildren sample issue_bad_href = Inl (Error ''URI malformed'')"
  by code_simp

text \<open>
  Claim C9. When the tasklist strategy has a surviving line and its first line does not
  resolve, or when it has none and the \<^verbatim>\<open>children:\<close> strategy has surviving lines that
  pass the guard and its first line does not resolve, \<open>getChildrenNew\<close> succeeds with no
  records and \<open>getChildren\<close> returns the empty sequence: the HTML strategy is not run.
\<close>

theorem first_line_fails_empty:
  "(taskListLines issue \<noteq> []
      \<and> isl (getUrlStringForChildrenLine c (hd (taskListLines issue)) issue)
    \<longrightarrow> getChildrenNew c issue = Inr [] \<and> getChildren c issue = Inr [])
   \<and> (taskListLines issue = [] \<and> childrenLines issue \<noteq> []
      \<and> \<not> list_ex (\<lambda>line. startsWith line ''<'') (childrenLines issue)
      \<and> isl (getUrlStringForChildrenLine c (hd (childrenLines issue)) issue)
    \<longrightarrow> getChildrenNew c issue = Inr [] \<and> getChildren c issue = Inr [])"
  by (simp add: getChildren_def getChildrenNew_def getChildrenFromTaskList_cases Let_def
      convertLinesToChildren_def getValidChildrenLinks_first_fails)

theorem first_line_fails_empty_witness:
  "taskListLines issue_tasklist_bad_first = [''todo'', ''#2'']
   \<and> isl (getUrlStringForChildrenLine sample ''todo'' issue_tasklist_bad_first)
   \<and> getChildren sample issue_tasklist_bad_first = Inr []
   \<and> taskListLines issue_children_bad_first = []
   \<and> childrenLines issue_children_bad_first = [''below'', ''#2'']
   \<and> \<not> list_ex (\<lambda>line. startsWith line ''<'') (childrenLines issue_children_bad_first)
   \<and> isl (getUrlStringForChildrenLine sample ''below'' issue_children_bad_first)
   \<and> getChildren sample issue_children_bad_first = Inr []
   \<and> getChildrenFromHtml sample issue_children_bad_first =
       Inr [\<lparr>group = Some ''children:'', html_url = ''https://github.com/o/r/issues/5''\<rparr>,
            \<lparr>group = Some ''children:'', html_url = ''https://example.org/x''\<rparr>]"
proof -
  have t: "taskListLines issue_tasklist_bad_first = [''todo'', ''#2'']" by code_simp
  have tf: "isl (getUrlStringForChildrenLine sample ''todo'' issue_tasklist_bad_first)"
    by code_simp
  have n: "taskListLines issue_children_bad_first = []" by code_simp
  have l: "childrenLines issue_children_bad_first = [''below'', ''#2'']" by code_simp
  have g: "\<not> list_ex (\<lambda>line. startsWith line ''<'') (childrenLines issue_children_bad_first)"
    by code_simp
  have lf: "isl (getUrlStringForChildrenLine sample ''below'' issue_children_bad_first)"
    by code_simp
  have h: "getChildrenFromHtml sample issue_children_bad_first =
       Inr [\<lparr>group = Some ''children:'', html_url = ''https://github.com/o/r/issues/5''\<rparr>,
            \<lparr>group = Some ''children:'', html_url = ''https://example.org/x''\<rparr>]"
    by code_simp
  from first_line_fails_empty [of issue_tasklist_bad_first sample] t tf
  have 1: "getChildren sample issue_tasklist_bad_first = Inr []" by simp
  from first_line_fails_empty [of issue_children_bad_first sample] n l g lf
  have 2: "getChildren sample issue_children_bad_first = Inr []" by simp
  from t tf 1 n l g lf 2 h show ?thesis by simp
qed

text \<open>
  Claim C10. When the scanner succeeds on the text of the rendered body, \<open>getDueDate\<close>
  returns its result and the error collector is the one it was given, whatever \<open>html_url\<close>
  and \<open>root_issue\<close> are.
\<close>

theorem getDueDate_success_frame:
  "getEtaDate c (issueText c issue) = Inr s \<Longrightarrow>
   getDueDate c issue errorManager = (\<lparr>eta = s\<rparr>, errorManager)"
  by (simp add: getDueDate_def)

theorem getDueDate_success_frame_witness:
  "getEtaDate sample (issueText sample issue_html_only) = Inr ''2023Q2''
   \<and> getDueDate sample issue_html_only [etaNotFound issue_empty_url]
       = (\<lparr>eta = ''2023Q2''\<rparr>, [etaNotFound issue_empty_url])"
proof -
  have s: "getEtaDate sample (issueText sample issue_html_only) = Inr ''2023Q2''"
    by code_simp
  from getDueDate_success_frame [OF s, of "[etaNotFound issue_empty_url]"] s
  show ?thesis by simp
qed

text \<open>
  Claim C6, as amended. \<open>getSectionLines\<close> returns nothing when the header does not occur
  in the text. When it occurs, the text from the first occurrence on is cut at every run of
  carriage returns and line feeds, the first line is dropped, and each remaining line is
  unwrapped: the line is trimmed of surrounding white space, the part after the last
  \<^verbatim>\<open>](\<close> is taken (the whole trimmed line when there is none), and the first \<^verbatim>\<open>)\<close> of that
  part is removed, wherever it stands. The unwrap leaves a line as it is when the line has
  no surrounding white space, no \<^verbatim>\<open>](\<close> and no \<^verbatim>\<open>)\<close>.
\<close>

theorem section_locator:
  "(indexOf text hdr = None \<longleftrightarrow> (\<forall>j. \<not> prefix hdr (drop j text)))
   \<and> (indexOf text hdr = None \<longrightarrow> getSectionLines text hdr = [])
   \<and> (\<forall>k. indexOf text hdr = Some k \<longrightarrow>
         prefix hdr (drop k text) \<and> (\<forall>j<k. \<not> prefix hdr (drop j text))
         \<and> getSectionLines text hdr
             = map getUrlFromMarkdownText (drop 1 (splitLines (drop k text))))
   \<and> ((\<forall>c \<in> set s. \<not> isLineBreak c) \<longrightarrow> splitLines s = [s])
   \<and> ((\<forall>c \<in> set l. \<not> isLineBreak c) \<and> brk \<noteq> [] \<and> (\<forall>c \<in> set brk. isLineBreak c)
        \<and> (rest = [] \<or> \<not> isLineBreak (hd rest))
      \<longrightarrow> splitLines (l @ brk @ rest) = l # splitLines rest)
   \<and> (\<exists>a b. line = a @ trim line @ b
         \<and> (\<forall>c \<in> set a. isWhiteSpace c) \<and> (\<forall>c \<in> set b. isWhiteSpace c)
         \<and> (trim line = []
             \<or> \<not> isWhiteSpace (hd (trim line)) \<and> \<not> isWhiteSpace (last (trim line))))
   \<and> (\<exists>pre seg. trim line = pre @ seg \<and> (pre = [] \<or> suffix '']('' pre)
         \<and> indexOf seg '']('' = None
         \<and> getUrlFromMarkdownText line = remove1 (CHR '')'') seg)
   \<and> ((line = [] \<or> \<not> isWhiteSpace (hd line) \<and> \<not> isWhiteSpace (last line))
        \<and> indexOf line '']('' = None \<and> CHR '')'' \<notin> set line
      \<longrightarrow> getUrlFromMarkdownText line = line)"
proof -
  have absent: "indexOf text hdr = None \<longrightarrow> getSectionLines text hdr = []"
    by (simp add: getSectionLines_def)
  have present: "prefix hdr (drop k text) \<and> (\<forall>j<k. \<not> prefix hdr (drop j text))
         \<and> getSectionLines text hdr
             = map getUrlFromMarkdownText (drop 1 (splitLines (drop k text)))"
    if "indexOf text hdr = Some k" for k
    using that indexOf_Some_first [OF that] by (simp add: getSectionLines_def slice1_def)
  have single: "(\<forall>c \<in> set s. \<not> isLineBreak c) \<longrightarrow> splitLines s = [s]"
    using splitLines_single by blast
  have run: "(\<forall>c \<in> set l. \<not> isLineBreak c) \<and> brk \<noteq> [] \<and> (\<forall>c \<in> set brk. isLineBreak c)
        \<and> (rest = [] \<or> \<not> isLineBreak (hd rest))
      \<longrightarrow> splitLines (l @ brk @ rest) = l # splitLines rest"
    using splitLines_run [of l brk rest] by blast
  have trimmed: "\<exists>a b. line = a @ trim line @ b
         \<and> (\<forall>c \<in> set a. isWhiteSpace c) \<and> (\<forall>c \<in> set b. isWhiteSpace c)
         \<and> (trim line = []
             \<or> \<not> isWhiteSpace (hd (trim line)) \<and> \<not> isWhiteSpace (last (trim line)))"
    by (rule trim_spec)
  have unwrap: "\<exists>pre seg. trim line = pre @ seg \<and> (pre = [] \<or> suffix '']('' pre)
         \<and> indexOf seg '']('' = None
         \<and> getUrlFromMarkdownText line = remove1 (CHR '')'') seg"
  proof -
    let ?seg = "last (split_str '']('' (trim line))"
    obtain pre where "trim line = pre @ ?seg" "pre = [] \<or> suffix '']('' pre"
      using last_split_str_suffix [of "trim line" "''](''"] by blast
    moreover have "indexOf ?seg '']('' = None"
      by (rule last_split_str_no_sep) simp
    moreover have "getUrlFromMarkdownText line = remove1 (CHR '')'') ?seg"
      by (simp add: getUrlFromMarkdownText_def replaceFirstParen_def lastItem_def)
    ultimately show ?thesis by blast
  qed
  have noop: "(line = [] \<or> \<not> isWhiteSpace (hd line) \<and> \<not> isWhiteSpace (last line))
        \<and> indexOf line '']('' = None \<and> CHR '')'' \<notin> set line
      \<longrightarrow> getUrlFromMarkdownText line = line"
  proof
    assume a: "(line = [] \<or> \<not> isWhiteSpace (hd line) \<and> \<not> isWhiteSpace (last line))
        \<and> indexOf line '']('' = None \<and> CHR '')'' \<notin> set line"
    then have "trim line = line" by (intro trim_id) simp
    moreover from a have "split_str '']('' line = [line]" by (intro split_str_no_sep) simp
    moreover from a have "remove1 (CHR '')'') line = line" by (simp add: remove1_idem)
    ultimately show "getUrlFromMarkdownText line = line"
      by (simp add: getUrlFromMarkdownText_def replaceFirstParen_def lastItem_def)
  qed
  note occurs = indexOf_None_iff [of "text" hdr]
  from occurs absent present single run trimmed unwrap noop
  show ?thesis by blast
qed

theorem section_locator_witness:
  "indexOf sample_text ''children:'' = Some 6
   \<and> getSectionLines sample_text ''children:''
       = [''https://github.com/o/r/issues/5'', ''#12'', ''see (docs here'']
   \<and> indexOf ''no section'' ''children:'' = None
   \<and> getSectionLines ''no section'' ''children:'' = []
   \<and> splitLines ''a\<newline>\<newline>b'' = [''a'', ''b'']
   \<and> indexOf ''#12'' '']('' = None
   \<and> getUrlFromMarkdownText ''#12'' = ''#12''"
proof -
  have k: "indexOf sample_text ''children:'' = Some 6" by code_simp
  have v: "map getUrlFromMarkdownText (drop 1 (splitLines (drop 6 sample_text)))
           = [''https://github.com/o/r/issues/5'', ''#12'', ''see (docs here'']"
    by code_simp
  have n: "indexOf ''no section'' ''children:'' = None" by code_simp
  have la: "\<forall>c \<in> set ''a''. \<not> isLineBreak c" by code_simp
  have lb: "\<forall>c \<in> set ''b''. \<not> isLineBreak c" by code_simp
  have br: "''\<newline>\<newline>'' \<noteq> [] \<and> (\<forall>c \<in> set ''\<newline>\<newline>''. isLineBreak c)" by code_simp
  have rs: "''b'' = [] \<or> \<not> isLineBreak (hd ''b'')" by code_simp
  have ap: "''a'' @ ''\<newline>\<newline>'' @ ''b'' = ''a\<newline>\<newline>b''" by simp
  have w: "''#12'' = [] \<or> \<not> isWhiteSpace (hd ''#12'') \<and> \<not> isWhiteSpace (last ''#12'')"
    by code_simp
  have i: "indexOf ''#12'' '']('' = None" by code_simp
  have p: "CHR '')'' \<notin> set ''#12''" by code_simp
  note t1 = section_locator [of sample_text "''children:''" "''b''" "''a''" "''\<newline>\<newline>''" "''b''" "''#12''"]
  note t2 = section_locator [of "''no section''" "''children:''" "''b''" "''a''" "''\<newline>\<newline>''" "''b''" "''#12''"]
  from t1 k have "getSectionLines sample_text ''children:''
      = map getUrlFromMarkdownText (drop 1 (splitLines (drop 6 sample_text)))"
    by blast
  with v have 1: "getSectionLines sample_text ''children:''
       = [''https://github.com/o/r/issues/5'', ''#12'', ''see (docs here'']"
    by simp
  from t2 n have 2: "getSectionLines ''no section'' ''children:'' = []" by blast
  from t1 lb have s1: "splitLines ''b'' = [''b'']" by blast
  from t1 la br rs have "splitLines (''a'' @ ''\<newline>\<newline>'' @ ''b'') = ''a'' # splitLines ''b''"
    by blast
  with s1 ap have 3: "splitLines ''a\<newline>\<newline>b'' = [''a'', ''b'']" by simp
  from t1 w i p have 4: "getUrlFromMarkdownText ''#12'' = ''#12''" by blast
  from k 1 n 2 3 i 4 show ?thesis by blast
qed

text \<open>
  Claim C6 as stated fails: the line \<^verbatim>\<open>see (docs) here\<close> holds no \<^verbatim>\<open>](\<close> and no trailing
  \<^verbatim>\<open>)\<close>, so the unwrap as the claim words it leaves it as it is, and the section locator
  returns it without its \<^verbatim>\<open>)\<close>; the line \<^verbatim>\<open>  #12\<close> holds no \<^verbatim>\<open>](\<close> either and comes back
  without its leading spaces.
\<close>

theorem section_locator_counterexample:
  "indexOf ''see (docs) here'' '']('' = None
   \<and> unwrap_spec ''see (docs) here'' = ''see (docs) here''
   \<and> getSectionLines ''children:\<newline>see (docs) here'' ''children:'' = [''see (docs here'']
   \<and> indexOf ''  #12'' '']('' = None
   \<and> unwrap_spec ''  #12'' = ''  #12''
   \<and> getSectionLines ''children:\<newline>  #12'' ''children:'' = [''#12'']"
  by code_simp

end
